theory Spec2Isabelle
  imports Complex_Main
begin

section \<open>Python values and the process environment\<close>

text \<open>
  The two modules under verification are \<^verbatim>\<open>5g_network_simulator.py\<close> (class
  \<^verbatim>\<open>FiveGNetworkSimulator\<close>) and \<^verbatim>\<open>attack_detector.py\<close> (class
  \<^verbatim>\<open>AttackDetector\<close>).

  Conventions of the embedding:
  \<^item> Python \<^verbatim>\<open>int\<close> is \<open>int\<close>; Python \<^verbatim>\<open>float\<close> is idealised as \<open>real\<close> (no rounding,
    no overflow, no NaN other than the one place where the code can produce it, which is an
    \<open>option\<close>);
  \<^item> a naive \<^verbatim>\<open>datetime\<close> is the number of microseconds since \<^verbatim>\<open>datetime.min\<close>, so that
    subtraction, comparison, equality and truncation to the minute are plain integer
    arithmetic;
  \<^item> a \<^verbatim>\<open>dict\<close> that is iterated is an association list in insertion order;
  \<^item> every exception the code can raise is a value of \<open>error\<close>, and a function that can
    raise returns \<open>error + 'a\<close>;
  \<^item> logging is not modelled.
\<close>

type_synonym datetime = int

datatype error = KeyError string | IndexError | ZeroDivisionError | ValueError

definition replace_second_microsecond :: "datetime \<Rightarrow> datetime" where
  \<comment> \<open>\<^verbatim>\<open>timestamp.replace(second=0, microsecond=0)\<close>\<close>
  "replace_second_microsecond t = t - t mod 60000000"

definition minute :: "datetime \<Rightarrow> int" where
  \<comment> \<open>\<^verbatim>\<open>timestamp.minute\<close>\<close>
  "minute t = (t div 60000000) mod 60"

definition replace_minute :: "datetime \<Rightarrow> int \<Rightarrow> error + datetime" where
  \<comment> \<open>\<^verbatim>\<open>timestamp.replace(minute=m)\<close>; a minute outside 0..59 is a ValueError\<close>
  "replace_minute t m =
     (if 0 \<le> m \<and> m \<le> 59 then Inr (t - minute t * 60000000 + m * 60000000)
      else Inl ValueError)"

definition total_seconds :: "int \<Rightarrow> real" where
  \<comment> \<open>\<^verbatim>\<open>timedelta.total_seconds()\<close> of a difference of two datetimes\<close>
  "total_seconds d = real_of_int d / 1000000"

definition truediv :: "real \<Rightarrow> real \<Rightarrow> error + real" where
  \<comment> \<open>Python's \<^verbatim>\<open>/\<close>\<close>
  "truediv a b = (if b = 0 then Inl ZeroDivisionError else Inr (a / b))"

definition floordiv :: "int \<Rightarrow> int \<Rightarrow> error + int" where
  \<comment> \<open>Python's \<^verbatim>\<open>//\<close> on ints (rounds towards minus infinity, as \<open>div\<close> does)\<close>
  "floordiv a b = (if b = 0 then Inl ZeroDivisionError else Inr (a div b))"

subsection \<open>Rendering integers, as an f-string does\<close>

function str_nat :: "nat \<Rightarrow> string" where
  "str_nat n =
     (if n < 10 then [''0123456789'' ! n]
      else str_nat (n div 10) @ [''0123456789'' ! (n mod 10)])"
  by pat_completeness auto
termination
  by (relation "measure id") auto

declare str_nat.simps [simp del]

definition str_int :: "int \<Rightarrow> string" where
  "str_int i = (if i < 0 then ''-'' @ str_nat (nat (- i)) else str_nat (nat i))"

section \<open>The simulator's data model\<close>

datatype ThreatType =
  DDOS | MITM | SPOOFING | JAMMING | DATA_BREACH | IMSI_CATCHING | ROGUE_BASE_STATION

fun ThreatType_value :: "ThreatType \<Rightarrow> string" where
  "ThreatType_value DDOS = ''DDoS Attack''"
| "ThreatType_value MITM = ''Man-in-the-Middle''"
| "ThreatType_value SPOOFING = ''Spoofing Attack''"
| "ThreatType_value JAMMING = ''Jamming Attack''"
| "ThreatType_value DATA_BREACH = ''Data Privacy Breach''"
| "ThreatType_value IMSI_CATCHING = ''IMSI Catching''"
| "ThreatType_value ROGUE_BASE_STATION = ''Rogue Base Station''"

datatype Severity = LOW | MEDIUM | HIGH | CRITICAL

fun Severity_value :: "Severity \<Rightarrow> int" where
  "Severity_value LOW = 1"
| "Severity_value MEDIUM = 2"
| "Severity_value HIGH = 3"
| "Severity_value CRITICAL = 4"

record NetworkNode =
  node_id :: string
  node_type :: string
  ip_address :: string
  location :: "real \<times> real"
  status :: string
  security_level :: int

definition new_NetworkNode ::
  "string \<Rightarrow> string \<Rightarrow> string \<Rightarrow> real \<times> real \<Rightarrow> NetworkNode" where
  \<comment> \<open>the dataclass constructor with its defaults \<^verbatim>\<open>status="active"\<close>, \<^verbatim>\<open>security_level=5\<close>\<close>
  "new_NetworkNode i t ip loc =
     \<lparr>node_id = i, node_type = t, ip_address = ip, location = loc,
      status = ''active'', security_level = 5\<rparr>"

record SecurityEvent =
  event_id :: string
  event_timestamp :: datetime
  threat_type :: ThreatType
  severity :: Severity
  source_node :: string
  target_node :: string
  description :: string
  mitigation_status :: string

text \<open>
  A traffic record is a \<^verbatim>\<open>dict\<close> with string keys. The code reads some keys with
  \<^verbatim>\<open>t[k]\<close> (KeyError when absent), others with \<^verbatim>\<open>t.get(k, default)\<close> or after
  \<^verbatim>\<open>k in t\<close>, so every key is optional in the model.
\<close>

record traffic =
  timestamp :: "datetime option"
  source :: "string option"
  destination :: "string option"
  packet_count :: "int option"
  data_volume :: "int option"
  latency :: "real option"
  signal_strength :: "real option"
  is_attack :: "bool option"
  attack_type :: "string option"
  anomaly_score :: "real option"

definition getitem :: "'a option \<Rightarrow> string \<Rightarrow> error + 'a" where
  \<comment> \<open>\<^verbatim>\<open>t[key]\<close>\<close>
  "getitem v key = (case v of None \<Rightarrow> Inl (KeyError key) | Some x \<Rightarrow> Inr x)"

definition get_default :: "'a option \<Rightarrow> 'a \<Rightarrow> 'a" where
  \<comment> \<open>\<^verbatim>\<open>t.get(key, default)\<close>\<close>
  "get_default v d = (case v of None \<Rightarrow> d | Some x \<Rightarrow> x)"

text \<open>
  The simulator object, together with the part of the process it reads: the state of the
  \<^verbatim>\<open>random\<close> module (the sequence of raw values the generator will yield), the readings
  \<^verbatim>\<open>datetime.now()\<close> and \<^verbatim>\<open>int(time.time())\<close> will give, Python's rendering of a
  float inside an f-string, and \<^verbatim>\<open>datetime.isoformat\<close>. The two renderings are left
  abstract.
\<close>

record FiveGNetworkSimulator =
  nodes :: "(string \<times> NetworkNode) list"
  security_events :: "SecurityEvent list"
  traffic_data :: "traffic list"
  rng :: "nat \<Rightarrow> nat"
  clock :: "nat \<Rightarrow> datetime"
  unix_clock :: "nat \<Rightarrow> int"
  float_repr :: "real \<Rightarrow> string"
  isoformat :: "datetime \<Rightarrow> string"

definition init ::
  "(nat \<Rightarrow> nat) \<Rightarrow> (nat \<Rightarrow> datetime) \<Rightarrow> (nat \<Rightarrow> int) \<Rightarrow> (real \<Rightarrow> string)
     \<Rightarrow> (datetime \<Rightarrow> string) \<Rightarrow> FiveGNetworkSimulator" where
  \<comment> \<open>\<^verbatim>\<open>__init__\<close>, in the environment given\<close>
  "init r c u fr fmt =
     \<lparr>nodes = [], security_events = [], traffic_data = [],
      rng = r, clock = c, unix_clock = u, float_repr = fr, isoformat = fmt\<rparr>"

definition next_raw :: "FiveGNetworkSimulator \<Rightarrow> nat \<times> FiveGNetworkSimulator" where
  "next_raw s = (rng s 0, s\<lparr>rng := (\<lambda>i. rng s (Suc i))\<rparr>)"

definition datetime_now :: "FiveGNetworkSimulator \<Rightarrow> datetime \<times> FiveGNetworkSimulator" where
  "datetime_now s = (clock s 0, s\<lparr>clock := (\<lambda>i. clock s (Suc i))\<rparr>)"

definition time_time :: "FiveGNetworkSimulator \<Rightarrow> int \<times> FiveGNetworkSimulator" where
  \<comment> \<open>\<^verbatim>\<open>int(time.time())\<close>\<close>
  "time_time s = (unix_clock s 0, s\<lparr>unix_clock := (\<lambda>i. unix_clock s (Suc i))\<rparr>)"

subsection \<open>The functions of the \<^verbatim>\<open>random\<close> module, on one raw draw\<close>

definition randint :: "int \<Rightarrow> int \<Rightarrow> nat \<Rightarrow> int" where
  \<comment> \<open>\<^verbatim>\<open>random.randint(a, b)\<close> is \<^verbatim>\<open>a + randbelow(b - a + 1)\<close>\<close>
  "randint a b r = a + int (r mod nat (b - a + 1))"

definition random_unit :: "nat \<Rightarrow> real" where
  \<comment> \<open>\<^verbatim>\<open>random.random()\<close>: a multiple of \<open>2\<^sup>-\<^sup>5\<^sup>3\<close> in \<open>[0, 1)\<close>\<close>
  "random_unit r = real (r mod 2 ^ 53) / 2 ^ 53"

definition uniform :: "real \<Rightarrow> real \<Rightarrow> nat \<Rightarrow> real" where
  \<comment> \<open>\<^verbatim>\<open>random.uniform(a, b)\<close> is \<^verbatim>\<open>a + (b - a) * random()\<close>\<close>
  "uniform a b r = a + (b - a) * random_unit r"

definition choice :: "'a list \<Rightarrow> nat \<Rightarrow> error + 'a" where
  \<comment> \<open>\<^verbatim>\<open>random.choice(seq)\<close> is \<^verbatim>\<open>seq[randbelow(len(seq))]\<close>, IndexError on an empty one\<close>
  "choice xs r = (if xs = [] then Inl IndexError else Inr (xs ! (r mod length xs)))"

section \<open>The node registry\<close>

fun dict_set :: "'k \<Rightarrow> 'v \<Rightarrow> ('k \<times> 'v) list \<Rightarrow> ('k \<times> 'v) list" where
  \<comment> \<open>\<^verbatim>\<open>d[k] = v\<close>: an existing key keeps its place, a new one goes last\<close>
  "dict_set k v [] = [(k, v)]"
| "dict_set k v ((k', v') # d) =
     (if k' = k then (k, v) # d else (k', v') # dict_set k v d)"

definition core_nodes :: "(string \<times> string \<times> string \<times> real \<times> real) list" where
  "core_nodes =
     [(''AMF-001'', ''AMF'', ''10.0.1.1'', (0, 0)),
      (''SMF-001'', ''SMF'', ''10.0.1.2'', (0, 1)),
      (''UPF-001'', ''UPF'', ''10.0.1.3'', (0, 2)),
      (''AUSF-001'', ''AUSF'', ''10.0.1.4'', (0, 3)),
      (''UDM-001'', ''UDM'', ''10.0.1.5'', (0, 4))]"

definition ran_nodes :: "(string \<times> string \<times> string \<times> real \<times> real) list" where
  "ran_nodes =
     [(''gNB-001'', ''gNodeB'', ''10.0.2.1'', (1, 0)),
      (''gNB-002'', ''gNodeB'', ''10.0.2.2'', (1, 1)),
      (''gNB-003'', ''gNodeB'', ''10.0.2.3'', (1, 2)),
      (''gNB-004'', ''gNodeB'', ''10.0.2.4'', (1, 3))]"

definition ue_nodes :: "(string \<times> string \<times> string \<times> real \<times> real) list" where
  "ue_nodes =
     [(''UE-001'', ''User Equipment'', ''192.168.1.1'', (2, 0)),
      (''UE-002'', ''User Equipment'', ''192.168.1.2'', (2, 1)),
      (''UE-003'', ''User Equipment'', ''192.168.1.3'', (2, 2)),
      (''UE-004'', ''User Equipment'', ''192.168.1.4'', (2, 3))]"

definition initialize_network :: "FiveGNetworkSimulator \<Rightarrow> FiveGNetworkSimulator" where
  "initialize_network s =
     s\<lparr>nodes :=
         fold (\<lambda>(i, t, ip, loc) d. dict_set i (new_NetworkNode i t ip loc) d)
           (core_nodes @ ran_nodes @ ue_nodes) (nodes s)\<rparr>"

section \<open>The traffic generator\<close>

definition normal_traffic :: "FiveGNetworkSimulator \<Rightarrow> string \<Rightarrow> error + traffic \<times> FiveGNetworkSimulator" where
  \<comment> \<open>the dict literal of \<^verbatim>\<open>generate_normal_traffic\<close>, its entries evaluated in order\<close>
  "normal_traffic s nid =
     (case datetime_now s of (now, s1) \<Rightarrow>
     (case next_raw s1 of (r1, s2) \<Rightarrow>
     (case choice (map fst (nodes s2)) r1 of
        Inl e \<Rightarrow> Inl e
      | Inr dest \<Rightarrow>
         (case next_raw s2 of (r2, s3) \<Rightarrow>
          case next_raw s3 of (r3, s4) \<Rightarrow>
          case next_raw s4 of (r4, s5) \<Rightarrow>
          case next_raw s5 of (r5, s6) \<Rightarrow>
            Inr (\<lparr>timestamp = Some now,
                  source = Some nid,
                  destination = Some dest,
                  packet_count = Some (randint 10 100 r2),
                  data_volume = Some (randint 100 1000 r3),
                  latency = Some (uniform 1 50 r4),
                  signal_strength = Some (uniform (7 / 10) 1 r5),
                  is_attack = Some False,
                  attack_type = None,
                  anomaly_score = None\<rparr>, s6)))))"

fun generate_second ::
  "(string \<times> NetworkNode) list \<Rightarrow> FiveGNetworkSimulator \<Rightarrow> error + FiveGNetworkSimulator" where
  \<comment> \<open>the inner loop, over \<^verbatim>\<open>self.nodes.items()\<close>\<close>
  "generate_second [] s = Inr s"
| "generate_second ((nid, node) # rest) s =
     (if node_type node = ''User Equipment'' then
        (case normal_traffic s nid of
           Inl e \<Rightarrow> Inl e
         | Inr (t, s') \<Rightarrow>
             generate_second rest (s'\<lparr>traffic_data := traffic_data s' @ [t]\<rparr>))
      else generate_second rest s)"

fun generate_seconds :: "nat \<Rightarrow> FiveGNetworkSimulator \<Rightarrow> error + FiveGNetworkSimulator" where
  \<comment> \<open>the outer loop, \<^verbatim>\<open>for second in range(duration)\<close>\<close>
  "generate_seconds 0 s = Inr s"
| "generate_seconds (Suc n) s =
     (case generate_second (nodes s) s of
        Inl e \<Rightarrow> Inl e
      | Inr s' \<Rightarrow> generate_seconds n s')"

definition generate_normal_traffic ::
  "FiveGNetworkSimulator \<Rightarrow> int \<Rightarrow> error + FiveGNetworkSimulator" where
  \<comment> \<open>\<^verbatim>\<open>range(duration)\<close> has \<open>nat duration\<close> elements: none when the duration is negative\<close>
  "generate_normal_traffic s duration = generate_seconds (nat duration) s"

section \<open>The attack injectors\<close>

definition ddos_traffic ::
  "FiveGNetworkSimulator \<Rightarrow> string \<Rightarrow> int \<times> traffic \<times> FiveGNetworkSimulator" where
  \<comment> \<open>one iteration of the flood loop: the packet count drawn, the record, the state after\<close>
  "ddos_traffic s target =
     (case next_raw s of (r1, s1) \<Rightarrow>
      case datetime_now s1 of (now, s2) \<Rightarrow>
      case next_raw s2 of (r2, s3) \<Rightarrow>
      case next_raw s3 of (r3, s4) \<Rightarrow>
      case next_raw s4 of (r4, s5) \<Rightarrow>
      case next_raw s5 of (r5, s6) \<Rightarrow>
        (randint 1000 5000 r1,
         \<lparr>timestamp = Some now,
          source = Some (''ATTACKER-'' @ str_int (randint 1000 9999 r2)),
          destination = Some target,
          packet_count = Some (randint 1000 5000 r1),
          data_volume = Some (randint 1000 5000 r1 * randint 50 200 r3),
          latency = Some (uniform 100 500 r4),
          signal_strength = Some (uniform (3 / 10) (6 / 10) r5),
          is_attack = Some True,
          attack_type = Some ''DDoS'',
          anomaly_score = None\<rparr>,
         s6))"

fun ddos_loop ::
  "nat \<Rightarrow> string \<Rightarrow> int \<Rightarrow> FiveGNetworkSimulator \<Rightarrow> int \<times> FiveGNetworkSimulator" where
  \<comment> \<open>\<^verbatim>\<open>for second in range(duration)\<close>, with the running \<^verbatim>\<open>attack_packets\<close>\<close>
  "ddos_loop 0 target attack_packets s = (attack_packets, s)"
| "ddos_loop (Suc n) target attack_packets s =
     (case ddos_traffic s target of (pc, t, s') \<Rightarrow>
        ddos_loop n target (attack_packets + pc)
          (s'\<lparr>traffic_data := traffic_data s' @ [t]\<rparr>))"

definition simulate_ddos_attack ::
  "FiveGNetworkSimulator \<Rightarrow> string \<Rightarrow> int \<Rightarrow> FiveGNetworkSimulator" where
  "simulate_ddos_attack s target duration =
     (case datetime_now s of (attack_start, s1) \<Rightarrow>
      case ddos_loop (nat duration) target 0 s1 of (attack_packets, s2) \<Rightarrow>
      case time_time s2 of (t, s3) \<Rightarrow>
        s3\<lparr>security_events := security_events s3 @
           [\<lparr>event_id = ''DDOS-'' @ str_int t,
             event_timestamp = attack_start,
             threat_type = DDOS,
             severity = HIGH,
             source_node = ''Multiple Attackers'',
             target_node = target,
             description = ''DDoS attack with '' @ str_int attack_packets
               @ '' packets over '' @ str_int duration @ '' seconds'',
             mitigation_status = ''pending''\<rparr>]\<rparr>)"

definition distance :: "real \<times> real \<Rightarrow> real \<times> real \<Rightarrow> real" where
  \<comment> \<open>\<^verbatim>\<open>np.sqrt((loc[0] - area[0])**2 + (loc[1] - area[1])**2)\<close>\<close>
  "distance loc area = sqrt ((fst loc - fst area)\<^sup>2 + (snd loc - snd area)\<^sup>2)"

fun jam_scan ::
  "real \<times> real \<Rightarrow> real \<Rightarrow> (string \<times> NetworkNode) list
     \<Rightarrow> string list \<times> (string \<times> NetworkNode) list" where
  \<comment> \<open>the loop over \<^verbatim>\<open>self.nodes.items()\<close>: the affected identifiers and the registry after\<close>
  "jam_scan area radius [] = ([], [])"
| "jam_scan area radius ((k, n) # d) =
     (case jam_scan area radius d of (affected, d') \<Rightarrow>
        if distance (location n) area \<le> radius
        then (k # affected, (k, n\<lparr>status := ''degraded''\<rparr>) # d')
        else (affected, (k, n) # d'))"

definition str_area :: "FiveGNetworkSimulator \<Rightarrow> real \<times> real \<Rightarrow> string" where
  \<comment> \<open>\<^verbatim>\<open>f"{target_area}"\<close> of a pair\<close>
  "str_area s area =
     ''('' @ float_repr s (fst area) @ '', '' @ float_repr s (snd area) @ '')''"

definition simulate_jamming_attack ::
  "FiveGNetworkSimulator \<Rightarrow> real \<times> real \<Rightarrow> real \<Rightarrow> FiveGNetworkSimulator" where
  "simulate_jamming_attack s target_area radius =
     (case jam_scan target_area radius (nodes s) of (affected_nodes, nodes') \<Rightarrow>
      case time_time s of (t, s1) \<Rightarrow>
      case datetime_now s1 of (now, s2) \<Rightarrow>
        s2\<lparr>nodes := nodes',
           security_events := security_events s2 @
           [\<lparr>event_id = ''JAM-'' @ str_int t,
             event_timestamp = now,
             threat_type = JAMMING,
             severity = MEDIUM,
             source_node = ''Unknown Jammer'',
             target_node = ''Area '' @ str_area s target_area,
             description = ''Jamming attack affecting ''
               @ str_nat (length affected_nodes) @ '' nodes'',
             mitigation_status = ''pending''\<rparr>]\<rparr>)"

definition simulate_mitm_attack ::
  "FiveGNetworkSimulator \<Rightarrow> string \<times> string \<Rightarrow> FiveGNetworkSimulator" where
  "simulate_mitm_attack s target_connection =
     (case target_connection of (src, dst) \<Rightarrow>
      case datetime_now s of (now, s1) \<Rightarrow>
      case next_raw s1 of (r1, s2) \<Rightarrow>
      case next_raw s2 of (r2, s3) \<Rightarrow>
      case next_raw s3 of (r3, s4) \<Rightarrow>
      case next_raw s4 of (r4, s5) \<Rightarrow>
      case next_raw s5 of (r5, s6) \<Rightarrow>
      case time_time s6 of (t, s7) \<Rightarrow>
      case datetime_now s7 of (now', s8) \<Rightarrow>
        s8\<lparr>traffic_data := traffic_data s8 @
             [\<lparr>timestamp = Some now,
               source = Some src,
               destination = Some dst,
               packet_count = Some (randint 50 200 r1),
               data_volume = Some (randint 500 2000 r2),
               latency = Some (uniform 20 100 r3),
               signal_strength = Some (uniform (4 / 10) (8 / 10) r4),
               is_attack = Some True,
               attack_type = Some ''MITM'',
               anomaly_score = Some (uniform (7 / 10) (9 / 10) r5)\<rparr>],
           security_events := security_events s8 @
             [\<lparr>event_id = ''MITM-'' @ str_int t,
               event_timestamp = now',
               threat_type = MITM,
               severity = CRITICAL,
               source_node = ''Attacker'',
               target_node = src @ '' -> '' @ dst,
               description = ''Man-in-the-middle attack detected'',
               mitigation_status = ''pending''\<rparr>]\<rparr>)"

section \<open>The report aggregator\<close>

fun increment :: "'k \<Rightarrow> ('k \<times> int) list \<Rightarrow> ('k \<times> int) list" where
  \<comment> \<open>\<^verbatim>\<open>d[k] += 1\<close> on a \<^verbatim>\<open>defaultdict(int)\<close>\<close>
  "increment k [] = [(k, 1)]"
| "increment k ((k', c) # d) =
     (if k' = k then (k', c + 1) # d else (k', c) # increment k d)"

definition slice_from :: "int \<Rightarrow> 'a list \<Rightarrow> 'a list" where
  \<comment> \<open>\<^verbatim>\<open>xs[i:]\<close>: a negative start counts from the end, and is clamped to the list\<close>
  "slice_from i xs =
     (let n = int (length xs);
          start = (if i < 0 then max (n + i) 0 else min i n)
      in drop (nat start) xs)"

record recent_event =
  recent_event_id :: string
  recent_timestamp :: string
  recent_threat_type :: string
  recent_severity :: int
  recent_description :: string

record report_summary =
  total_security_events :: nat
  total_traffic_records :: nat
  attack_traffic_percentage :: real
  network_nodes :: nat

record report =
  summary :: report_summary
  threat_distribution :: "(string \<times> int) list"
  severity_distribution :: "(int \<times> int) list"
  recent_events :: "recent_event list"

definition generate_security_report :: "FiveGNetworkSimulator \<Rightarrow> report" where
  "generate_security_report s =
     (let total_events = length (security_events s);
          total_traffic = length (traffic_data s);
          attack_traffic = length (filter (\<lambda>t. get_default (is_attack t) False) (traffic_data s));
          event_stats = fold (\<lambda>event d. increment (ThreatType_value (threat_type event)) d)
                          (security_events s) [];
          severity_stats = fold (\<lambda>event d. increment (Severity_value (severity event)) d)
                          (security_events s) []
      in \<lparr>summary =
            \<lparr>total_security_events = total_events,
             total_traffic_records = total_traffic,
             attack_traffic_percentage =
               (if total_traffic > 0
                then real attack_traffic / real total_traffic * 100 else 0),
             network_nodes = length (nodes s)\<rparr>,
          threat_distribution = event_stats,
          severity_distribution = severity_stats,
          recent_events =
            map (\<lambda>event.
                  \<lparr>recent_event_id = event_id event,
                   recent_timestamp = isoformat s (event_timestamp event),
                   recent_threat_type = ThreatType_value (threat_type event),
                   recent_severity = Severity_value (severity event),
                   recent_description = description event\<rparr>)
              (slice_from (- 10) (security_events s))\<rparr>)"

definition statuses :: "FiveGNetworkSimulator \<Rightarrow> (string \<times> string) list" where
  \<comment> \<open>the status of every registered node, in registry order\<close>
  "statuses s = map (\<lambda>(k, n). (k, status n)) (nodes s)"

definition quiet :: FiveGNetworkSimulator where
  \<comment> \<open>a fresh simulator in an environment whose generator and clocks only yield 0\<close>
  "quiet = init (\<lambda>_. 0) (\<lambda>_. 0) (\<lambda>_. 0) (\<lambda>_. ''0'') (\<lambda>_. ''0'')"

section \<open>The attack detector\<close>

text \<open>
  A finding is the dict a detection method appends to \<^verbatim>\<open>attacks\<close>; its \<^verbatim>\<open>metrics\<close>
  entry has one shape per attack kind. \<open>None\<close> in a metric stands for NaN.
\<close>

datatype metrics =
  DDoS_metrics int nat "real option"
    \<comment> \<open>\<^verbatim>\<open>total_packets\<close>, \<^verbatim>\<open>unique_sources\<close>, \<^verbatim>\<open>avg_packet_size\<close>\<close>
| Jamming_metrics real real "real option"
    \<comment> \<open>\<^verbatim>\<open>avg_signal_strength\<close>, \<^verbatim>\<open>min_signal_strength\<close>, \<^verbatim>\<open>signal_variance\<close>\<close>
| MITM_metrics real int real
    \<comment> \<open>\<^verbatim>\<open>anomaly_score\<close>, \<^verbatim>\<open>packet_count\<close>, \<^verbatim>\<open>latency\<close>\<close>
| Spoofing_metrics string real int
    \<comment> \<open>\<^verbatim>\<open>source\<close>, \<^verbatim>\<open>packet_rate\<close>, \<^verbatim>\<open>total_packets\<close>\<close>

record attack =
  attack_kind :: string
  attack_timestamp :: datetime
  attack_severity :: string
  attack_metrics :: metrics
  confidence :: real

text \<open>
  The detector object. Its scaler and its isolation forest come from scikit-learn and are
  parameters of the model: \<open>fit_transform X\<close> is the scaled matrix, \<open>fit_predict X\<close> the
  labels of the forest fitted on \<open>X\<close>, and \<open>score_samples X x\<close> the score that forest gives
  the sample \<open>x\<close>.
\<close>

record AttackDetector =
  fit_transform :: "real list list \<Rightarrow> real list list"
  fit_predict :: "real list list \<Rightarrow> int list"
  score_samples :: "real list list \<Rightarrow> real list \<Rightarrow> real"

definition high_packet_rate :: int where
  \<comment> \<open>\<^verbatim>\<open>attack_patterns["ddos_patterns"]["high_packet_rate"]\<close>\<close>
  "high_packet_rate = 1000"

definition signal_strength_threshold :: real where
  \<comment> \<open>\<^verbatim>\<open>attack_patterns["jamming_patterns"]["signal_strength_threshold"]\<close>\<close>
  "signal_strength_threshold = 3 / 10"

fun collect :: "('a \<Rightarrow> error + 'b) \<Rightarrow> 'a list \<Rightarrow> error + 'b list" where
  \<comment> \<open>a comprehension whose element expression can raise: the first exception wins\<close>
  "collect f [] = Inr []"
| "collect f (x # xs) =
     (case f x of
        Inl e \<Rightarrow> Inl e
      | Inr y \<Rightarrow> (case collect f xs of Inl e \<Rightarrow> Inl e | Inr ys \<Rightarrow> Inr (y # ys)))"

fun dict_append :: "'k \<Rightarrow> 'v \<Rightarrow> ('k \<times> 'v list) list \<Rightarrow> ('k \<times> 'v list) list" where
  \<comment> \<open>\<^verbatim>\<open>if k not in d: d[k] = []\<close> followed by \<^verbatim>\<open>d[k].append(v)\<close>\<close>
  "dict_append k v [] = [(k, [v])]"
| "dict_append k v ((k', vs) # d) =
     (if k' = k then (k', vs @ [v]) # d else (k', vs) # dict_append k v d)"

definition window_start :: "traffic \<Rightarrow> int \<Rightarrow> error + datetime" where
  \<comment> \<open>the key \<^verbatim>\<open>_group_by_time_windows\<close> computes for one record\<close>
  "window_start t window_size =
     (case getitem (timestamp t) ''timestamp'' of
        Inl e \<Rightarrow> Inl e
      | Inr ts \<Rightarrow>
         (case floordiv window_size 60 of
            Inl e \<Rightarrow> Inl e
          | Inr k \<Rightarrow>
             (case floordiv (minute (replace_second_microsecond ts)) k of
                Inl e \<Rightarrow> Inl e
              | Inr q \<Rightarrow> replace_minute (replace_second_microsecond ts) (q * k))))"

fun group_loop ::
  "int \<Rightarrow> traffic list \<Rightarrow> (datetime \<times> traffic list) list
     \<Rightarrow> error + (datetime \<times> traffic list) list" where
  "group_loop window_size [] windows = Inr windows"
| "group_loop window_size (t # ts) windows =
     (case window_start t window_size of
        Inl e \<Rightarrow> Inl e
      | Inr w \<Rightarrow> group_loop window_size ts (dict_append w t windows))"

definition group_by_time_windows ::
  "traffic list \<Rightarrow> int \<Rightarrow> error + (datetime \<times> traffic list) list" where
  "group_by_time_windows traffic_list window_size = group_loop window_size traffic_list []"

definition np_mean :: "real list \<Rightarrow> real option" where
  \<comment> \<open>\<^verbatim>\<open>np.mean\<close>: NaN on an empty list\<close>
  "np_mean xs = (if xs = [] then None else Some (sum_list xs / real (length xs)))"

definition ddos_window :: "datetime \<times> traffic list \<Rightarrow> error + attack list" where
  \<comment> \<open>the body of the loop of \<^verbatim>\<open>detect_ddos_attack\<close>: the findings one window adds\<close>
  "ddos_window w =
     (case w of (ts, traffic_window) \<Rightarrow>
      if traffic_window = [] then Inr []
      else
       (case collect (\<lambda>t. getitem (packet_count t) ''packet_count'') traffic_window of
          Inl e \<Rightarrow> Inl e
        | Inr pcs \<Rightarrow>
       (case collect (\<lambda>t. getitem (source t) ''source'') traffic_window of
          Inl e \<Rightarrow> Inl e
        | Inr srcs \<Rightarrow>
       (case collect (\<lambda>t. getitem (data_volume t) ''data_volume'') traffic_window of
          Inl e \<Rightarrow> Inl e
        | Inr vols \<Rightarrow>
           (let total_packets = sum_list pcs;
                unique_sources = card (set srcs);
                avg_packet_size = np_mean (map real_of_int vols)
            in if total_packets > high_packet_rate
               then Inr [\<lparr>attack_kind = ''DDoS'',
                          attack_timestamp = ts,
                          attack_severity = ''HIGH'',
                          attack_metrics =
                            DDoS_metrics total_packets unique_sources avg_packet_size,
                          confidence = min (real_of_int total_packets / 1000) 1\<rparr>]
               else Inr [])))))"

fun concat_results :: "('a \<Rightarrow> error + 'b list) \<Rightarrow> 'a list \<Rightarrow> error + 'b list" where
  \<comment> \<open>a loop that appends what each iteration finds, and stops at the first exception\<close>
  "concat_results f [] = Inr []"
| "concat_results f (x # xs) =
     (case f x of
        Inl e \<Rightarrow> Inl e
      | Inr ys \<Rightarrow> (case concat_results f xs of Inl e \<Rightarrow> Inl e | Inr zs \<Rightarrow> Inr (ys @ zs)))"

definition detect_ddos_attack :: "traffic list \<Rightarrow> error + attack list" where
  "detect_ddos_attack traffic_list =
     (case group_by_time_windows traffic_list 60 of
        Inl e \<Rightarrow> Inl e
      | Inr time_windows \<Rightarrow> concat_results ddos_window time_windows)"

definition floor_1min :: "datetime \<Rightarrow> datetime" where
  \<comment> \<open>\<^verbatim>\<open>.dt.floor("1min")\<close>\<close>
  "floor_1min t = t - t mod 60000000"

definition sample_variance :: "real list \<Rightarrow> real option" where
  \<comment> \<open>pandas' \<^verbatim>\<open>.var()\<close> (one degree of freedom removed): NaN below two samples\<close>
  "sample_variance xs =
     (if length xs < 2 then None
      else Some (sum_list (map (\<lambda>x. (x - sum_list xs / real (length xs))\<^sup>2) xs)
                   / real (length xs - 1)))"

definition jamming_group :: "(datetime \<times> real) list \<Rightarrow> datetime \<Rightarrow> attack list" where
  \<comment> \<open>the body of the loop over \<^verbatim>\<open>signal_df.groupby("time_window")\<close>, for one window\<close>
  "jamming_group signal_data time_window =
     (case map snd (filter (\<lambda>p. floor_1min (fst p) = time_window) signal_data) of
        [] \<Rightarrow> []
      | x # xs \<Rightarrow>
         (let avg_signal = sum_list (x # xs) / real (length (x # xs));
              min_signal = fold min xs x;
              signal_variance = sample_variance (x # xs)
          in if avg_signal < signal_strength_threshold \<or> min_signal < 2 / 10
                \<or> (case signal_variance of None \<Rightarrow> False | Some v \<Rightarrow> v > 1 / 10)
             then [\<lparr>attack_kind = ''Jamming'',
                    attack_timestamp = time_window,
                    attack_severity = ''MEDIUM'',
                    attack_metrics = Jamming_metrics avg_signal min_signal signal_variance,
                    confidence = 1 - avg_signal\<rparr>]
             else []))"

definition detect_jamming_attack :: "traffic list \<Rightarrow> error + attack list" where
  \<comment> \<open>\<^verbatim>\<open>groupby\<close> visits the windows in ascending order\<close>
  "detect_jamming_attack traffic_list =
     (case collect
             (\<lambda>t. case getitem (timestamp t) ''timestamp'' of
                     Inl e \<Rightarrow> Inl e
                   | Inr ts \<Rightarrow> Inr (ts, the (signal_strength t)))
             (filter (\<lambda>t. signal_strength t \<noteq> None) traffic_list) of
        Inl e \<Rightarrow> Inl e
      | Inr signal_data \<Rightarrow>
          if signal_data = [] then Inr []
          else Inr (concat (map (jamming_group signal_data)
                      (sort (remdups (map (\<lambda>p. floor_1min (fst p)) signal_data))))))"

definition qualifies :: "traffic \<Rightarrow> bool" where
  \<comment> \<open>\<^verbatim>\<open>all(key in traffic for key in ["packet_count", "latency", "data_volume"])\<close>\<close>
  "qualifies t = (packet_count t \<noteq> None \<and> latency t \<noteq> None \<and> data_volume t \<noteq> None)"

definition feature_vector :: "traffic \<Rightarrow> real list" where
  "feature_vector t =
     [real_of_int (the (packet_count t)),
      the (latency t),
      real_of_int (the (data_volume t)),
      get_default (signal_strength t) (5 / 10),
      get_default (anomaly_score t) 0]"

definition index :: "'a list \<Rightarrow> nat \<Rightarrow> error + 'a" where
  \<comment> \<open>\<^verbatim>\<open>xs[i]\<close> for \<open>i \<ge> 0\<close>\<close>
  "index xs i = (if i < length xs then Inr (xs ! i) else Inl IndexError)"

definition mitm_record ::
  "AttackDetector \<Rightarrow> real list list \<Rightarrow> nat \<times> int \<times> traffic \<Rightarrow> error + attack list" where
  \<comment> \<open>the body of the loop over \<^verbatim>\<open>enumerate(zip(anomaly_scores, traffic_records))\<close>\<close>
  "mitm_record d X_scaled item =
     (case item of (i, score, t) \<Rightarrow>
      if score = - 1 then
        (case getitem (timestamp t) ''timestamp'' of
           Inl e \<Rightarrow> Inl e
         | Inr ts \<Rightarrow>
        (case index X_scaled i of
           Inl e \<Rightarrow> Inl e
         | Inr x \<Rightarrow>
            Inr [\<lparr>attack_kind = ''MITM'',
                  attack_timestamp = ts,
                  attack_severity = ''CRITICAL'',
                  attack_metrics =
                    MITM_metrics \<bar>score_samples d X_scaled x\<bar>
                      (the (packet_count t)) (the (latency t)),
                  confidence = \<bar>score_samples d X_scaled x\<bar>\<rparr>]))
      else Inr [])"

definition detect_mitm_attack :: "AttackDetector \<Rightarrow> traffic list \<Rightarrow> error + attack list" where
  "detect_mitm_attack d traffic_list =
     (let traffic_records = filter qualifies traffic_list;
          features = map feature_vector traffic_records
      in if length features < 10 then Inr []
         else
          (let X_scaled = fit_transform d features;
               anomaly_scores = fit_predict d X_scaled
           in concat_results (mitm_record d X_scaled)
                (zip [0 ..< length (zip anomaly_scores traffic_records)]
                   (zip anomaly_scores traffic_records))))"

record source_stats =
  stats_packet_count :: int
  stats_data_volume :: int
  first_seen :: datetime
  last_seen :: datetime

fun dict_get :: "('k \<times> 'v) list \<Rightarrow> 'k \<Rightarrow> 'v option" where
  "dict_get [] k = None"
| "dict_get ((k', v) # d) k = (if k' = k then Some v else dict_get d k)"

definition spoofing_record ::
  "traffic \<Rightarrow> (string \<times> source_stats) list \<Rightarrow> error + (string \<times> source_stats) list" where
  \<comment> \<open>the body of the first loop of \<^verbatim>\<open>detect_spoofing_attack\<close>\<close>
  "spoofing_record t source_analysis =
     (case getitem (source t) ''source'' of
        Inl e \<Rightarrow> Inl e
      | Inr src \<Rightarrow>
     (case (case dict_get source_analysis src of
              Some st \<Rightarrow> Inr st
            | None \<Rightarrow>
               (case getitem (timestamp t) ''timestamp'' of
                  Inl e \<Rightarrow> Inl e
                | Inr ts \<Rightarrow>
                   Inr \<lparr>stats_packet_count = 0, stats_data_volume = 0,
                        first_seen = ts, last_seen = ts\<rparr>)) of
        Inl e \<Rightarrow> Inl e
      | Inr st \<Rightarrow>
     (case getitem (packet_count t) ''packet_count'' of
        Inl e \<Rightarrow> Inl e
      | Inr pc \<Rightarrow>
     (case getitem (data_volume t) ''data_volume'' of
        Inl e \<Rightarrow> Inl e
      | Inr vol \<Rightarrow>
     (case getitem (timestamp t) ''timestamp'' of
        Inl e \<Rightarrow> Inl e
      | Inr ts \<Rightarrow>
          Inr (dict_set src
                 \<lparr>stats_packet_count = stats_packet_count st + pc,
                  stats_data_volume = stats_data_volume st + vol,
                  first_seen = first_seen st,
                  last_seen = ts\<rparr> source_analysis))))))"

fun spoofing_loop ::
  "traffic list \<Rightarrow> (string \<times> source_stats) list \<Rightarrow> error + (string \<times> source_stats) list" where
  "spoofing_loop [] source_analysis = Inr source_analysis"
| "spoofing_loop (t # ts) source_analysis =
     (case spoofing_record t source_analysis of
        Inl e \<Rightarrow> Inl e
      | Inr source_analysis' \<Rightarrow> spoofing_loop ts source_analysis')"

definition spoofing_source :: "string \<times> source_stats \<Rightarrow> error + attack list" where
  \<comment> \<open>the body of the second loop of \<^verbatim>\<open>detect_spoofing_attack\<close>\<close>
  "spoofing_source item =
     (case item of (src, stats) \<Rightarrow>
      let time_span = total_seconds (last_seen stats - first_seen stats)
      in if time_span > 0 then
           (case truediv (real_of_int (stats_packet_count stats)) time_span of
              Inl e \<Rightarrow> Inl e
            | Inr packet_rate \<Rightarrow>
                if packet_rate > 50
                then Inr [\<lparr>attack_kind = ''Spoofing'',
                           attack_timestamp = last_seen stats,
                           attack_severity = ''HIGH'',
                           attack_metrics =
                             Spoofing_metrics src packet_rate (stats_packet_count stats),
                           confidence = min (packet_rate / 100) 1\<rparr>]
                else Inr [])
         else Inr [])"

definition detect_spoofing_attack :: "traffic list \<Rightarrow> error + attack list" where
  "detect_spoofing_attack traffic_list =
     (case spoofing_loop traffic_list [] of
        Inl e \<Rightarrow> Inl e
      | Inr source_analysis \<Rightarrow> concat_results spoofing_source source_analysis)"

record detection_summary =
  total_attacks :: nat
  detection_timestamp :: string
  traffic_records_analyzed :: nat

record detection_results =
  ddos_attacks :: "attack list"
  jamming_attacks :: "attack list"
  mitm_attacks :: "attack list"
  spoofing_attacks :: "attack list"
  detection_summary :: detection_summary

definition comprehensive_attack_detection ::
  "AttackDetector \<Rightarrow> string \<Rightarrow> traffic list \<Rightarrow> error + detection_results" where
  \<comment> \<open>\<open>now\<close> is what \<^verbatim>\<open>datetime.now().isoformat()\<close> gives\<close>
  "comprehensive_attack_detection d now traffic_list =
     (case detect_ddos_attack traffic_list of
        Inl e \<Rightarrow> Inl e
      | Inr ddos \<Rightarrow>
     (case detect_jamming_attack traffic_list of
        Inl e \<Rightarrow> Inl e
      | Inr jamming \<Rightarrow>
     (case detect_mitm_attack d traffic_list of
        Inl e \<Rightarrow> Inl e
      | Inr mitm \<Rightarrow>
     (case detect_spoofing_attack traffic_list of
        Inl e \<Rightarrow> Inl e
      | Inr spoofing \<Rightarrow>
          Inr \<lparr>ddos_attacks = ddos,
               jamming_attacks = jamming,
               mitm_attacks = mitm,
               spoofing_attacks = spoofing,
               detection_summary =
                 \<lparr>total_attacks =
                    length ddos + length jamming + length mitm + length spoofing,
                  detection_timestamp = now,
                  traffic_records_analyzed = length traffic_list\<rparr>\<rparr>))))"

section \<open>Notions the properties are stated with\<close>

definition int_within :: "int option \<Rightarrow> int \<Rightarrow> int \<Rightarrow> bool" where
  \<comment> \<open>the key is present and its value lies in the closed interval\<close>
  "int_within v lo hi = (case v of None \<Rightarrow> False | Some x \<Rightarrow> lo \<le> x \<and> x \<le> hi)"

definition real_within :: "real option \<Rightarrow> real \<Rightarrow> real \<Rightarrow> bool" where
  "real_within v lo hi = (case v of None \<Rightarrow> False | Some x \<Rightarrow> lo \<le> x \<and> x \<le> hi)"

definition is_user_equipment :: "string \<times> NetworkNode \<Rightarrow> bool" where
  \<comment> \<open>a registry entry whose node has the endpoint role\<close>
  "is_user_equipment entry = (node_type (snd entry) = ''User Equipment'')"

definition benign_record :: "string list \<Rightarrow> traffic \<Rightarrow> bool" where
  \<comment> \<open>a record within the benign ranges, not an attack, sent to one of the given identifiers\<close>
  "benign_record ids t =
     (int_within (packet_count t) 10 100
      \<and> int_within (data_volume t) 100 1000
      \<and> real_within (latency t) 1 50
      \<and> real_within (signal_strength t) (7 / 10) 1
      \<and> is_attack t = Some False
      \<and> (case destination t of None \<Rightarrow> False | Some dest \<Rightarrow> dest \<in> set ids))"

definition flood_record :: "string \<Rightarrow> traffic \<Rightarrow> bool" where
  \<comment> \<open>a record within the flood ranges, marked as a flood attack on the target\<close>
  "flood_record target t =
     (int_within (packet_count t) 1000 5000
      \<and> real_within (latency t) 100 500
      \<and> real_within (signal_strength t) (3 / 10) (6 / 10)
      \<and> is_attack t = Some True
      \<and> attack_type t = Some ''DDoS''
      \<and> destination t = Some target)"

definition well_formed :: "traffic \<Rightarrow> bool" where
  \<comment> \<open>a traffic record with the keys every producer in the repository sets and the
     detectors read with \<^verbatim>\<open>t[key]\<close>\<close>
  "well_formed t =
     (timestamp t \<noteq> None \<and> source t \<noteq> None \<and> packet_count t \<noteq> None
      \<and> data_volume t \<noteq> None)"

definition window_of :: "traffic \<Rightarrow> datetime" where
  \<comment> \<open>the start of the wall-clock minute a record falls in\<close>
  "window_of t = the (timestamp t) - the (timestamp t) mod 60000000"

definition window_total :: "traffic list \<Rightarrow> datetime \<Rightarrow> int" where
  \<comment> \<open>the sum of the packet counts of the records of one window\<close>
  "window_total traffic_list w =
     sum_list (map (\<lambda>t. the (packet_count t)) (filter (\<lambda>t. window_of t = w) traffic_list))"

definition record_at :: "datetime \<Rightarrow> string \<Rightarrow> int \<Rightarrow> traffic" where
  \<comment> \<open>a record as the generator builds it, with the three values given\<close>
  "record_at ts src pc =
     \<lparr>timestamp = Some ts, source = Some src, destination = Some ''gNB-001'',
      packet_count = Some pc, data_volume = Some 500, latency = Some 10,
      signal_strength = Some (9 / 10), is_attack = Some False,
      attack_type = None, anomaly_score = None\<rparr>"

definition flood_example :: "traffic list" where
  \<comment> \<open>1500 packets within the first minute, 500 within the second\<close>
  "flood_example =
     [record_at 0 ''UE-001'' 700, record_at 30000000 ''UE-002'' 800,
      record_at 60000000 ''UE-001'' 500]"

definition sightings :: "traffic list \<Rightarrow> string \<Rightarrow> traffic list" where
  \<comment> \<open>the records of one source label, in the order of the collection\<close>
  "sightings traffic_list src = filter (\<lambda>t. source t = Some src) traffic_list"

definition source_total :: "traffic list \<Rightarrow> string \<Rightarrow> int" where
  \<comment> \<open>the sum of the packet counts of the records of one source\<close>
  "source_total traffic_list src =
     sum_list (map (\<lambda>t. the (packet_count t)) (sightings traffic_list src))"

definition source_volume :: "traffic list \<Rightarrow> string \<Rightarrow> int" where
  "source_volume traffic_list src =
     sum_list (map (\<lambda>t. the (data_volume t)) (sightings traffic_list src))"

definition first_sighting :: "traffic list \<Rightarrow> string \<Rightarrow> datetime" where
  \<comment> \<open>the timestamp of the first record of the source in the collection\<close>
  "first_sighting traffic_list src = the (timestamp (hd (sightings traffic_list src)))"

definition last_sighting :: "traffic list \<Rightarrow> string \<Rightarrow> datetime" where
  \<comment> \<open>the timestamp of the last record of the source in the collection\<close>
  "last_sighting traffic_list src = the (timestamp (last (sightings traffic_list src)))"

definition sighting_span :: "traffic list \<Rightarrow> string \<Rightarrow> real" where
  \<comment> \<open>the seconds from the first sighting of a source to its last one\<close>
  "sighting_span traffic_list src =
     total_seconds (last_sighting traffic_list src - first_sighting traffic_list src)"

definition stats_of :: "traffic list \<Rightarrow> string \<Rightarrow> source_stats" where
  \<comment> \<open>what \<^verbatim>\<open>source_analysis\<close> is to hold for a source once the collection is read\<close>
  "stats_of traffic_list src =
     \<lparr>stats_packet_count = source_total traffic_list src,
      stats_data_volume = source_volume traffic_list src,
      first_seen = first_sighting traffic_list src,
      last_seen = last_sighting traffic_list src\<rparr>"

definition finding_source :: "attack \<Rightarrow> string" where
  \<comment> \<open>the source label a spoofing finding names\<close>
  "finding_source f =
     (case attack_metrics f of Spoofing_metrics src r n \<Rightarrow> src | _ \<Rightarrow> [])"


definition burst_example :: "traffic list" where
  \<comment> \<open>a source seen once with a million packets, among two sightings of another\<close>
  "burst_example =
     [record_at 0 ''ATTACKER-1000'' 100, record_at 1000000 ''ATTACKER-2000'' 1000000,
      record_at 2000000 ''ATTACKER-1000'' 100]"

definition bare_record :: traffic where
  \<comment> \<open>a record that carries no signal strength\<close>
  "bare_record =
     \<lparr>timestamp = Some 0, source = Some ''UE-001'', destination = Some ''gNB-001'',
      packet_count = Some 50, data_volume = Some 500, latency = Some 10,
      signal_strength = None, is_attack = None, attack_type = None,
      anomaly_score = None\<rparr>"

definition null_detector :: AttackDetector where
  \<comment> \<open>a detector whose scaler is the identity and whose forest finds no outlier\<close>
  "null_detector =
     \<lparr>fit_transform = (\<lambda>X. X), fit_predict = map (\<lambda>x. 1), score_samples = (\<lambda>X x. 0)\<rparr>"

section \<open>Properties of the jamming injector\<close>

lemma sqrt_le_radius: "0 \<le> r \<Longrightarrow> (sqrt x \<le> r) = (x \<le> r\<^sup>2)"
  by (metis abs_of_nonneg real_sqrt_abs real_sqrt_le_iff)

lemma within_radius:
  "0 \<le> r \<Longrightarrow>
     (distance loc area \<le> r) = ((fst loc - fst area)\<^sup>2 + (snd loc - snd area)\<^sup>2 \<le> r\<^sup>2)"
  by (simp add: distance_def sqrt_le_radius)

lemma within_half:
  "(distance loc area * 2 \<le> 1) =
     (((fst loc - fst area)\<^sup>2 + (snd loc - snd area)\<^sup>2) * 4 \<le> 1)"
  using within_radius [of "1 / 2" loc area] by (simp add: power2_eq_square)

lemma registry_initialized:
  "nodes (initialize_network (init r c u fr fmt)) =
     map (\<lambda>(i, t, ip, loc). (i, new_NetworkNode i t ip loc))
       (core_nodes @ ran_nodes @ ue_nodes)"
  by (simp add: initialize_network_def init_def core_nodes_def ran_nodes_def ue_nodes_def)


text \<open>
  Claim C1, as the code has it. In the hard-coded registry the node at \<open>(1, 1)\<close> is
  \<^verbatim>\<open>gNB-002\<close>; \<^verbatim>\<open>gNB-001\<close> is at \<open>(1, 0)\<close>, at distance 1 from the target. So, in any
  environment, the jamming injector with target area \<open>(1, 1)\<close> and radius \<open>0.5\<close> on the
  freshly initialised registry sets exactly \<^verbatim>\<open>gNB-002\<close> to degraded, and every other
  node keeps the status active.
\<close>

theorem jamming_hard_coded_registry:
  "statuses (simulate_jamming_attack (initialize_network (init r c u fr fmt)) (1, 1) (1 / 2)) =
     [(''AMF-001'', ''active''), (''SMF-001'', ''active''), (''UPF-001'', ''active''),
      (''AUSF-001'', ''active''), (''UDM-001'', ''active''),
      (''gNB-001'', ''active''), (''gNB-002'', ''degraded''), (''gNB-003'', ''active''),
      (''gNB-004'', ''active''),
      (''UE-001'', ''active''), (''UE-002'', ''active''), (''UE-003'', ''active''),
      (''UE-004'', ''active'')]"
  by (simp add: statuses_def simulate_jamming_attack_def registry_initialized
      core_nodes_def ran_nodes_def ue_nodes_def new_NetworkNode_def within_half
      time_time_def datetime_now_def power2_eq_square)

text \<open>
  Claim C1 as stated fails: the statuses after the injection are not the ones in which
  \<^verbatim>\<open>gNB-001\<close> alone is degraded.
\<close>

theorem jamming_gNB_001_counterexample:
  "statuses (simulate_jamming_attack (initialize_network quiet) (1, 1) (1 / 2)) \<noteq>
     [(''AMF-001'', ''active''), (''SMF-001'', ''active''), (''UPF-001'', ''active''),
      (''AUSF-001'', ''active''), (''UDM-001'', ''active''),
      (''gNB-001'', ''degraded''), (''gNB-002'', ''active''), (''gNB-003'', ''active''),
      (''gNB-004'', ''active''),
      (''UE-001'', ''active''), (''UE-002'', ''active''), (''UE-003'', ''active''),
      (''UE-004'', ''active'')]"
  by (simp add: quiet_def statuses_def simulate_jamming_attack_def registry_initialized
      core_nodes_def ran_nodes_def ue_nodes_def new_NetworkNode_def within_half
      time_time_def datetime_now_def power2_eq_square)


section \<open>Properties of the traffic generator and of the flood injector\<close>

lemma randint_range: "a \<le> b \<Longrightarrow> a \<le> randint a b r \<and> randint a b r \<le> b"
proof -
  assume ab: "a \<le> b"
  then have pos: "0 < nat (b - a + 1)" by simp
  have "r mod nat (b - a + 1) < nat (b - a + 1)" using pos by (rule mod_less_divisor)
  then have "int (r mod nat (b - a + 1)) < b - a + 1" using ab by linarith
  then show ?thesis by (simp add: randint_def)
qed

lemma random_unit_range: "0 \<le> random_unit r \<and> random_unit r < 1"
proof -
  have "r mod 2 ^ 53 < (2::nat) ^ 53" by simp
  then have "real (r mod 2 ^ 53) < 2 ^ 53"
    by (metis of_nat_less_iff of_nat_numeral of_nat_power)
  then show ?thesis by (simp add: random_unit_def)
qed

lemma uniform_range: "a \<le> b \<Longrightarrow> a \<le> uniform a b r \<and> uniform a b r \<le> b"
proof -
  assume ab: "a \<le> b"
  have u: "0 \<le> random_unit r" "random_unit r \<le> 1" using random_unit_range [of r] by simp_all
  have "0 \<le> (b - a) * random_unit r" using ab u by simp
  moreover have "(b - a) * random_unit r \<le> (b - a) * 1"
    using ab u by (intro mult_left_mono) simp_all
  ultimately show ?thesis by (simp add: uniform_def)
qed

lemma normal_traffic_ok:
  assumes "nodes s \<noteq> []"
  shows "\<exists>t s'. normal_traffic s nid = Inr (t, s')
          \<and> nodes s' = nodes s \<and> traffic_data s' = traffic_data s
          \<and> security_events s' = security_events s
          \<and> source t = Some nid
          \<and> benign_record (map fst (nodes s)) t"
proof -
  have "map fst (nodes s) ! (rng s 0 mod length (nodes s)) \<in> set (map fst (nodes s))"
    using assms by (intro nth_mem) simp
  then have "map fst (nodes s) ! (rng s 0 mod length (nodes s)) \<in> fst ` set (nodes s)" by simp
  then show ?thesis
    using assms randint_range [of 10 100] randint_range [of 100 1000]
      uniform_range [of 1 50] uniform_range [of "7 / 10" 1]
    by (simp add: normal_traffic_def datetime_now_def next_raw_def choice_def
        int_within_def real_within_def benign_record_def)
qed

lemma generate_second_ok:
  "l = [] \<or> nodes s \<noteq> [] \<Longrightarrow>
     \<exists>s' new. generate_second l s = Inr s'
       \<and> traffic_data s' = traffic_data s @ new
       \<and> nodes s' = nodes s
       \<and> security_events s' = security_events s
       \<and> map source new = map (\<lambda>e. Some (fst e)) (filter is_user_equipment l)
       \<and> (\<forall>t\<in>set new. benign_record (map fst (nodes s)) t)"
proof (induction l arbitrary: s)
  case Nil
  then show ?case by simp
next
  case (Cons e rest)
  obtain nid node where e: "e = (nid, node)" by (cases e)
  from Cons.prems have ne: "nodes s \<noteq> []" by simp
  show ?case
  proof (cases "node_type node = ''User Equipment''")
    case False
    with Cons.IH [of s] ne e show ?thesis by (simp add: is_user_equipment_def)
  next
    case True
    from normal_traffic_ok [OF ne, of nid] obtain t s1 where
      nt: "normal_traffic s nid = Inr (t, s1)" and
      s1: "nodes s1 = nodes s" "traffic_data s1 = traffic_data s"
          "security_events s1 = security_events s" and
      t: "source t = Some nid" "benign_record (map fst (nodes s)) t"
      by blast
    define s2 where "s2 = s1\<lparr>traffic_data := traffic_data s1 @ [t]\<rparr>"
    have s2: "nodes s2 = nodes s" "traffic_data s2 = traffic_data s @ [t]"
      "security_events s2 = security_events s"
      using s1 by (simp_all add: s2_def)
    from Cons.IH [of s2] ne s2 obtain s' new where
      r: "generate_second rest s2 = Inr s'"
         "traffic_data s' = traffic_data s2 @ new"
         "nodes s' = nodes s2" "security_events s' = security_events s2"
         "map source new = map (\<lambda>e. Some (fst e)) (filter is_user_equipment rest)"
         "\<forall>t\<in>set new. benign_record (map fst (nodes s2)) t"
      by auto
    have "generate_second (e # rest) s = Inr s'"
      using True nt r(1) by (simp add: e s2_def)
    moreover have "traffic_data s' = traffic_data s @ (t # new)" using r(2) s2 by simp
    moreover have "map source (t # new) = map (\<lambda>e. Some (fst e)) (filter is_user_equipment (e # rest))"
      using True t(1) r(5) by (simp add: e is_user_equipment_def)
    moreover have "\<forall>t'\<in>set (t # new). benign_record (map fst (nodes s)) t'"
      using t(2) r(6) s2 by simp
    moreover have "nodes s' = nodes s" "security_events s' = security_events s"
      using r(3,4) s2 by simp_all
    ultimately show ?thesis
      by (intro exI [of _ s'] exI [of _ "t # new"] conjI)
  qed
qed

lemma generate_seconds_ok:
  "\<exists>s' new. generate_seconds n s = Inr s'
       \<and> traffic_data s' = traffic_data s @ new
       \<and> nodes s' = nodes s
       \<and> security_events s' = security_events s
       \<and> map source new =
           concat (replicate n (map (\<lambda>e. Some (fst e)) (filter is_user_equipment (nodes s))))
       \<and> (\<forall>t\<in>set new. benign_record (map fst (nodes s)) t)"
proof (induction n arbitrary: s)
  case 0
  then show ?case by simp
next
  case (Suc n)
  have "nodes s = [] \<or> nodes s \<noteq> []" by simp
  from generate_second_ok [OF this] obtain s1 new1 where
    a: "generate_second (nodes s) s = Inr s1"
       "traffic_data s1 = traffic_data s @ new1"
       "nodes s1 = nodes s" "security_events s1 = security_events s"
       "map source new1 = map (\<lambda>e. Some (fst e)) (filter is_user_equipment (nodes s))"
       "\<forall>t\<in>set new1. benign_record (map fst (nodes s)) t"
    by blast
  from Suc.IH [of s1] a(3) obtain s' new where
    b: "generate_seconds n s1 = Inr s'"
       "traffic_data s' = traffic_data s1 @ new"
       "nodes s' = nodes s" "security_events s' = security_events s1"
       "map source new =
           concat (replicate n (map (\<lambda>e. Some (fst e)) (filter is_user_equipment (nodes s))))"
       "\<forall>t\<in>set new. benign_record (map fst (nodes s)) t"
    by auto
  have "generate_seconds (Suc n) s = Inr s'" using a(1) b(1) by simp
  moreover have "traffic_data s' = traffic_data s @ (new1 @ new)" using a(2) b(2) by simp
  moreover have "map source (new1 @ new) =
      concat (replicate (Suc n) (map (\<lambda>e. Some (fst e)) (filter is_user_equipment (nodes s))))"
    using a(5) b(5) by simp
  moreover have "\<forall>t\<in>set (new1 @ new). benign_record (map fst (nodes s)) t"
    using a(6) b(6) by auto
  moreover have "nodes s' = nodes s" "security_events s' = security_events s"
    using b(3,4) a(4) by simp_all
  ultimately show ?case
    by (intro exI [of _ s'] exI [of _ "new1 @ new"] conjI)
qed

lemma count_list_concat_replicate:
  "count_list (concat (replicate n xs)) x = n * count_list xs x"
  by (induction n) (simp_all add: )

lemma count_list_map_Some:
  "count_list (map (\<lambda>e. Some (fst e)) l) (Some k) = count_list (map fst l) k"
  by (induction l) simp_all

lemma length_concat_replicate: "length (concat (replicate n xs)) = n * length xs"
  by (induction n) simp_all

text \<open>
  Claim C6. For every state and duration \<open>d\<close> the traffic generator returns (it does not
  raise), and appends \<open>d\<close> records for each registry entry with the endpoint role
  (\<open>nat d\<close> is \<open>d\<close> for a duration that is not negative, and the loop runs zero times for a
  negative one): the records carrying a given source identifier number \<open>d\<close> times the
  endpoint-role entries under that identifier. Every appended record has its packet count
  in \<open>[10, 100]\<close>, its byte volume in \<open>[100, 1000]\<close>, its latency in \<open>[1, 50]\<close>, its signal
  strength in \<open>[0.7, 1]\<close>, the attack flag false, and a destination among the registered
  identifiers. The registry and the events are untouched.
\<close>

theorem generate_normal_traffic_benign:
  "\<exists>s' new. generate_normal_traffic s d = Inr s'
     \<and> traffic_data s' = traffic_data s @ new
     \<and> nodes s' = nodes s
     \<and> security_events s' = security_events s
     \<and> length new = nat d * length (filter is_user_equipment (nodes s))
     \<and> (\<forall>k. count_list (map source new) (Some k) =
              nat d * count_list (map fst (filter is_user_equipment (nodes s))) k)
     \<and> (\<forall>t\<in>set new. benign_record (map fst (nodes s)) t)"
proof -
  from generate_seconds_ok [of "nat d" s] obtain s' new where
    a: "generate_seconds (nat d) s = Inr s'"
       "traffic_data s' = traffic_data s @ new"
       "nodes s' = nodes s" "security_events s' = security_events s"
       "map source new =
           concat (replicate (nat d) (map (\<lambda>e. Some (fst e)) (filter is_user_equipment (nodes s))))"
       "\<forall>t\<in>set new. benign_record (map fst (nodes s)) t"
    by blast
  have "length (map source new) = nat d * length (filter is_user_equipment (nodes s))"
    unfolding a(5) by (simp add: length_concat_replicate)
  then have len: "length new = nat d * length (filter is_user_equipment (nodes s))" by simp
  have cnt: "\<forall>k. count_list (map source new) (Some k) =
              nat d * count_list (map fst (filter is_user_equipment (nodes s))) k"
    unfolding a(5) by (simp add: count_list_concat_replicate count_list_map_Some)
  show ?thesis
    unfolding generate_normal_traffic_def using a(1,2,3,4,6) len cnt
    by (intro exI [of _ s'] exI [of _ new] conjI)
qed


text \<open>One simulated second on the hard-coded registry: four records, one from each endpoint.\<close>

theorem generate_normal_traffic_benign_witness:
  "\<exists>s' new. generate_normal_traffic (initialize_network quiet) 1 = Inr s'
     \<and> traffic_data s' = new
     \<and> length new = 4
     \<and> count_list (map source new) (Some ''UE-001'') = 1
     \<and> (\<forall>t\<in>set new. benign_record (map fst (nodes (initialize_network quiet))) t)"
proof -
  have n: "nodes (initialize_network quiet) =
     map (\<lambda>(i, t, ip, loc). (i, new_NetworkNode i t ip loc))
       (core_nodes @ ran_nodes @ ue_nodes)"
    by (simp add: quiet_def registry_initialized)
  have t: "traffic_data (initialize_network quiet) = []"
    by (simp add: quiet_def initialize_network_def init_def)
  have f: "length (filter is_user_equipment (nodes (initialize_network quiet))) = 4"
    by (simp add: n is_user_equipment_def core_nodes_def ran_nodes_def ue_nodes_def
        new_NetworkNode_def)
  have c: "count_list (map fst (filter is_user_equipment (nodes (initialize_network quiet))))
             ''UE-001'' = 1"
    by (simp add: n is_user_equipment_def core_nodes_def ran_nodes_def ue_nodes_def
        new_NetworkNode_def)
  from generate_normal_traffic_benign [of "initialize_network quiet" 1] obtain s' new where
    a: "generate_normal_traffic (initialize_network quiet) 1 = Inr s'"
       "traffic_data s' = traffic_data (initialize_network quiet) @ new"
       "length new = nat 1 * length (filter is_user_equipment (nodes (initialize_network quiet)))"
       "\<forall>k. count_list (map source new) (Some k) =
              nat 1 * count_list (map fst (filter is_user_equipment (nodes (initialize_network quiet)))) k"
       "\<forall>t\<in>set new. benign_record (map fst (nodes (initialize_network quiet))) t"
    by blast
  have "count_list (map source new) (Some ''UE-001'') = 1" using a(4) c by simp
  then show ?thesis using a(1,2,3,5) t f
    by (intro exI [of _ s'] exI [of _ new] conjI) simp_all
qed

lemma ddos_traffic_ok:
  "\<exists>pc t s'. ddos_traffic s target = (pc, t, s')
     \<and> packet_count t = Some pc
     \<and> flood_record target t
     \<and> nodes s' = nodes s \<and> traffic_data s' = traffic_data s
     \<and> security_events s' = security_events s"
  using randint_range [of 1000 5000] uniform_range [of 100 500]
    uniform_range [of "3 / 10" "6 / 10"]
  by (simp add: ddos_traffic_def datetime_now_def next_raw_def flood_record_def
      int_within_def real_within_def)

lemma ddos_loop_ok:
  "\<exists>s' new. ddos_loop n target ap s =
        (ap + sum_list (map (\<lambda>t. the (packet_count t)) new), s')
     \<and> traffic_data s' = traffic_data s @ new
     \<and> length new = n
     \<and> (\<forall>t\<in>set new. flood_record target t)
     \<and> nodes s' = nodes s
     \<and> security_events s' = security_events s"
proof (induction n arbitrary: ap s)
  case 0
  then show ?case by simp
next
  case (Suc n)
  from ddos_traffic_ok [of s target] obtain pc t s1 where
    a: "ddos_traffic s target = (pc, t, s1)" "packet_count t = Some pc"
       "flood_record target t" "nodes s1 = nodes s" "traffic_data s1 = traffic_data s"
       "security_events s1 = security_events s"
    by blast
  define s2 where "s2 = s1\<lparr>traffic_data := traffic_data s1 @ [t]\<rparr>"
  from Suc.IH [of "ap + pc" s2] obtain s' new where
    b: "ddos_loop n target (ap + pc) s2 =
          (ap + pc + sum_list (map (\<lambda>t. the (packet_count t)) new), s')"
       "traffic_data s' = traffic_data s2 @ new" "length new = n"
       "\<forall>t\<in>set new. flood_record target t"
       "nodes s' = nodes s2" "security_events s' = security_events s2"
    by blast
  have "ddos_loop (Suc n) target ap s =
          (ap + sum_list (map (\<lambda>t. the (packet_count t)) (t # new)), s')"
    using a(1,2) b(1) by (simp add: s2_def)
  moreover have "traffic_data s' = traffic_data s @ (t # new)"
    using b(2) a(5) by (simp add: s2_def)
  moreover have "length (t # new) = Suc n" using b(3) by simp
  moreover have "\<forall>t'\<in>set (t # new). flood_record target t'" using a(3) b(4) by simp
  moreover have "nodes s' = nodes s" "security_events s' = security_events s"
    using a(4,6) b(5,6) by (simp_all add: s2_def)
  ultimately show ?case
    by (intro exI [of _ s'] exI [of _ "t # new"] conjI)
qed

text \<open>
  Claim C7. For every state, target identifier and duration \<open>d\<close>, the flood injector appends
  exactly \<open>d\<close> traffic records (none for a negative duration), each with its packet count in
  \<open>[1000, 5000]\<close>, latency in \<open>[100, 500]\<close>, signal strength in \<open>[0.3, 0.6]\<close>, the attack
  flag true, the attack kind \<^verbatim>\<open>DDoS\<close> and the target as destination, and appends exactly
  one event, of severity high, whose description gives the sum of the packet counts of the
  appended records. The registry is untouched.
\<close>

theorem simulate_ddos_attack_flood:
  "\<exists>new event.
     traffic_data (simulate_ddos_attack s target d) = traffic_data s @ new
     \<and> length new = nat d
     \<and> (\<forall>t\<in>set new. flood_record target t)
     \<and> security_events (simulate_ddos_attack s target d) = security_events s @ [event]
     \<and> severity event = HIGH
     \<and> threat_type event = DDOS
     \<and> target_node event = target
     \<and> description event =
         ''DDoS attack with '' @ str_int (sum_list (map (\<lambda>t. the (packet_count t)) new))
         @ '' packets over '' @ str_int d @ '' seconds''
     \<and> nodes (simulate_ddos_attack s target d) = nodes s"
proof -
  define s1 where "s1 = s\<lparr>clock := (\<lambda>i. clock s (Suc i))\<rparr>"
  from ddos_loop_ok [of "nat d" target 0 s1] obtain s2 new where
    a: "ddos_loop (nat d) target 0 s1 =
          (0 + sum_list (map (\<lambda>t. the (packet_count t)) new), s2)"
       "traffic_data s2 = traffic_data s1 @ new" "length new = nat d"
       "\<forall>t\<in>set new. flood_record target t"
       "nodes s2 = nodes s1" "security_events s2 = security_events s1"
    by blast
  show ?thesis
    using a
    by (intro exI [of _ new]) (simp add: simulate_ddos_attack_def datetime_now_def
        time_time_def s1_def [symmetric], simp add: s1_def)
qed

text \<open>Three seconds of flood on \<^verbatim>\<open>gNB-001\<close>, from a fresh simulator.\<close>

theorem simulate_ddos_attack_flood_witness:
  "\<exists>new event.
     traffic_data (simulate_ddos_attack quiet ''gNB-001'' 3) = new
     \<and> length new = 3
     \<and> (\<forall>t\<in>set new. flood_record ''gNB-001'' t)
     \<and> security_events (simulate_ddos_attack quiet ''gNB-001'' 3) = [event]
     \<and> severity event = HIGH"
proof -
  have q: "traffic_data quiet = []" "security_events quiet = []"
    by (simp_all add: quiet_def init_def)
  from simulate_ddos_attack_flood [of quiet "''gNB-001''" 3] obtain new event where
    a: "traffic_data (simulate_ddos_attack quiet ''gNB-001'' 3) = traffic_data quiet @ new"
       "length new = nat 3"
       "\<forall>t\<in>set new. flood_record ''gNB-001'' t"
       "security_events (simulate_ddos_attack quiet ''gNB-001'' 3) = security_events quiet @ [event]"
       "severity event = HIGH"
    by blast
  show ?thesis using a q
    by (intro exI [of _ new] exI [of _ event] conjI) simp_all
qed

section \<open>Properties of the report aggregator\<close>

lemma slice_last_ten:
  "slice_from (- 10) xs = (if length xs \<le> 10 then xs else drop (length xs - 10) xs)"
  by (simp add: slice_from_def Let_def max_def nat_diff_distrib')

lemma attack_flag: "get_default (is_attack t) False = (is_attack t = Some True)"
  by (cases "is_attack t") (simp_all add: get_default_def)

text \<open>
  Claim C5. For every simulator state, the report's attack-traffic percentage is 0 when
  there are no traffic records (the division is not evaluated), and the number of records
  flagged as attacks over the number of records, times 100, otherwise; and the report's
  recent events are the entries, in the order of the event list, of all the events when
  there are at most ten and of the last ten otherwise.
\<close>

theorem security_report_percentage_and_recent:
  "attack_traffic_percentage (summary (generate_security_report s)) =
     (if traffic_data s = [] then 0
      else real (length (filter (\<lambda>t. is_attack t = Some True) (traffic_data s)))
             / real (length (traffic_data s)) * 100)
   \<and> recent_events (generate_security_report s) =
       map (\<lambda>event.
              \<lparr>recent_event_id = event_id event,
               recent_timestamp = isoformat s (event_timestamp event),
               recent_threat_type = ThreatType_value (threat_type event),
               recent_severity = Severity_value (severity event),
               recent_description = description event\<rparr>)
         (if length (security_events s) \<le> 10 then security_events s
          else drop (length (security_events s) - 10) (security_events s))"
proof -
  have "attack_traffic_percentage (summary (generate_security_report s)) =
     (if traffic_data s = [] then 0
      else real (length (filter (\<lambda>t. is_attack t = Some True) (traffic_data s)))
             / real (length (traffic_data s)) * 100)"
    by (simp add: generate_security_report_def Let_def attack_flag)
  moreover have "recent_events (generate_security_report s) =
       map (\<lambda>event.
              \<lparr>recent_event_id = event_id event,
               recent_timestamp = isoformat s (event_timestamp event),
               recent_threat_type = ThreatType_value (threat_type event),
               recent_severity = Severity_value (severity event),
               recent_description = description event\<rparr>)
         (if length (security_events s) \<le> 10 then security_events s
          else drop (length (security_events s) - 10) (security_events s))"
    by (simp only: generate_security_report_def Let_def slice_last_ten report.simps)
  ultimately show ?thesis by (rule conjI)
qed

section \<open>Properties of flood detection\<close>

lemma keys_iff: "k \<in> fst ` set d \<longleftrightarrow> map_of d k \<noteq> None"
  by (simp add: map_of_eq_None_iff)

lemma map_of_dict_append:
  "map_of (dict_append k v d) =
     (map_of d)(k \<mapsto> (case map_of d k of None \<Rightarrow> [v] | Some vs \<Rightarrow> vs @ [v]))"
  by (induction d) (auto simp: fun_eq_iff)

lemma keys_dict_append:
  "map fst (dict_append k v d) = (if k \<in> fst ` set d then map fst d else map fst d @ [k])"
  by (induction d) (auto simp: keys_iff)

lemma keys_fold_append:
  "fst ` set (fold (\<lambda>t. dict_append (f t) t) td ws) = fst ` set ws \<union> f ` set td"
proof (induction td arbitrary: ws)
  case Nil
  show ?case by simp
next
  case (Cons t td)
  have "fst ` set (dict_append (f t) t ws) = insert (f t) (fst ` set ws)"
    using keys_dict_append [of "f t" t ws]
    by (metis (no_types, lifting) insert_absorb list.set_map set_append list.simps(15)
        Un_insert_right sup_bot.right_neutral empty_set)
  then show ?case by (simp add: Cons.IH)
qed

lemma distinct_fold_append:
  "distinct (map fst ws) \<Longrightarrow> distinct (map fst (fold (\<lambda>t. dict_append (f t) t) td ws))"
  by (induction td arbitrary: ws) (simp_all add: keys_dict_append)

lemma map_of_fold_append:
  "map_of (fold (\<lambda>t. dict_append (f t) t) td ws) w =
     (if map_of ws w \<noteq> None \<or> w \<in> f ` set td
      then Some ((case map_of ws w of None \<Rightarrow> [] | Some vs \<Rightarrow> vs) @ filter (\<lambda>t. f t = w) td)
      else None)"
proof (induction td arbitrary: ws)
  case Nil
  show ?case by (cases "map_of ws w") auto
next
  case (Cons t td)
  show ?case
    by (cases "map_of ws w"; cases "map_of ws (f t)")
       (auto simp: Cons.IH map_of_dict_append)
qed


lemma window_start_60:
  "timestamp t = Some ts \<Longrightarrow> window_start t 60 = Inr (window_of t)"
  by (simp add: window_start_def getitem_def floordiv_def replace_minute_def
      replace_second_microsecond_def minute_def window_of_def)

lemma group_loop_fold:
  "\<forall>t\<in>set td. timestamp t \<noteq> None \<Longrightarrow>
     group_loop 60 td ws = Inr (fold (\<lambda>t. dict_append (window_of t) t) td ws)"
proof (induction td arbitrary: ws)
  case Nil
  then show ?case by simp
next
  case (Cons t td)
  then obtain ts where "timestamp t = Some ts" by auto
  then have "window_start t 60 = Inr (window_of t)" by (rule window_start_60)
  with Cons show ?case by simp
qed

lemma collect_all: "\<forall>x\<in>set xs. f x = Inr (g x) \<Longrightarrow> collect f xs = Inr (map g xs)"
  by (induction xs) simp_all

lemma concat_results_all:
  "\<forall>x\<in>set xs. \<exists>ys. f x = Inr ys \<Longrightarrow>
     concat_results f xs = Inr (concat (map (\<lambda>x. projr (f x)) xs))"
  by (induction xs) auto

lemma concat_singletons: "concat (map (\<lambda>w. if P w then [w] else []) ws) = filter P ws"
  by (induction ws) simp_all

lemma ddos_window_wf:
  assumes "recs \<noteq> []" and "\<forall>t\<in>set recs. well_formed t"
  shows "\<exists>fs. ddos_window (w, recs) = Inr fs
           \<and> map attack_timestamp fs =
               (if sum_list (map (\<lambda>t. the (packet_count t)) recs) > 1000 then [w] else [])
           \<and> (\<forall>f\<in>set fs. attack_kind f = ''DDoS''
                 \<and> confidence f =
                     min (real_of_int (sum_list (map (\<lambda>t. the (packet_count t)) recs)) / 1000) 1)"
proof -
  have "\<forall>t\<in>set recs. getitem (packet_count t) ''packet_count'' = Inr (the (packet_count t))"
    using assms(2) by (auto simp: well_formed_def getitem_def)
  then have pc: "collect (\<lambda>t. getitem (packet_count t) ''packet_count'') recs =
      Inr (map (\<lambda>t. the (packet_count t)) recs)"
    by (rule collect_all)
  have "\<forall>t\<in>set recs. getitem (source t) ''source'' = Inr (the (source t))"
    using assms(2) by (auto simp: well_formed_def getitem_def)
  then have src: "collect (\<lambda>t. getitem (source t) ''source'') recs =
      Inr (map (\<lambda>t. the (source t)) recs)"
    by (rule collect_all)
  have "\<forall>t\<in>set recs. getitem (data_volume t) ''data_volume'' = Inr (the (data_volume t))"
    using assms(2) by (auto simp: well_formed_def getitem_def)
  then have vol: "collect (\<lambda>t. getitem (data_volume t) ''data_volume'') recs =
      Inr (map (\<lambda>t. the (data_volume t)) recs)"
    by (rule collect_all)
  show ?thesis
    using assms(1) by (simp add: ddos_window_def pc src vol Let_def high_packet_rate_def)
qed

lemma grouped_windows:
  assumes "(w, recs) \<in> set (fold (\<lambda>t. dict_append (window_of t) t) td [])"
  shows "recs = filter (\<lambda>t. window_of t = w) td \<and> w \<in> window_of ` set td"
proof -
  let ?res = "fold (\<lambda>t. dict_append (window_of t) t) td []"
  have "distinct (map fst ?res)" by (rule distinct_fold_append) simp
  then have "map_of ?res w = Some recs" using assms by (rule map_of_is_SomeI)
  then show ?thesis
    by (simp add: map_of_fold_append split: if_splits)
qed


lemma detect_ddos_attack_closed_form:
  assumes wf: "\<forall>t\<in>set td. well_formed t"
  shows "\<exists>fs keys. detect_ddos_attack td = Inr fs
     \<and> distinct keys \<and> set keys = window_of ` set td
     \<and> map attack_timestamp fs = filter (\<lambda>w. window_total td w > 1000) keys
     \<and> (\<forall>f\<in>set fs. attack_kind f = ''DDoS''
           \<and> confidence f =
               min (real_of_int (window_total td (attack_timestamp f)) / 1000) 1)"
proof -
  let ?res = "fold (\<lambda>t. dict_append (window_of t) t) td []"
  let ?fs = "concat (map (\<lambda>x. projr (ddos_window x)) ?res)"
  have ts: "\<forall>t\<in>set td. timestamp t \<noteq> None" using wf by (simp add: well_formed_def)
  have grp: "group_by_time_windows td 60 = Inr ?res"
    unfolding group_by_time_windows_def using ts by (rule group_loop_fold)
  have each: "\<exists>fs. ddos_window x = Inr fs
           \<and> map attack_timestamp fs = (if window_total td (fst x) > 1000 then [fst x] else [])
           \<and> (\<forall>f\<in>set fs. attack_kind f = ''DDoS''
                 \<and> confidence f = min (real_of_int (window_total td (fst x)) / 1000) 1)"
    if x: "x \<in> set ?res" for x
  proof -
    obtain w recs where xw: "x = (w, recs)" by (cases x)
    from x grouped_windows [of w recs td]
    have r: "recs = filter (\<lambda>t. window_of t = w) td" and m: "w \<in> window_of ` set td"
      by (simp_all add: xw)
    from m have ne: "recs \<noteq> []" by (auto simp: r filter_empty_conv)
    have wfr: "\<forall>t\<in>set recs. well_formed t" using wf by (simp add: r)
    have tot: "sum_list (map (\<lambda>t. the (packet_count t)) recs) = window_total td w"
      by (simp add: window_total_def r)
    show ?thesis
      using ddos_window_wf [OF ne wfr, of w] unfolding tot xw fst_conv .
  qed
  then have "\<forall>x\<in>set ?res. \<exists>ys. ddos_window x = Inr ys" by blast
  then have "concat_results ddos_window ?res = Inr ?fs" by (rule concat_results_all)
  then have det: "detect_ddos_attack td = Inr ?fs" by (simp add: detect_ddos_attack_def grp)
  have stamps: "map attack_timestamp (projr (ddos_window x)) =
      (if window_total td (fst x) > 1000 then [fst x] else [])" if "x \<in> set ?res" for x
    using each [OF that] by auto
  have "map attack_timestamp ?fs =
      concat (map (\<lambda>x. map attack_timestamp (projr (ddos_window x))) ?res)"
    by (simp add: map_concat comp_def)
  also have "\<dots> = concat (map (\<lambda>x. if window_total td (fst x) > 1000 then [fst x] else []) ?res)"
    using stamps by (intro arg_cong [of _ _ concat] map_cong) simp_all
  also have "\<dots> = concat (map (\<lambda>w. if window_total td w > 1000 then [w] else []) (map fst ?res))"
    by (simp add: comp_def)
  also have "\<dots> = filter (\<lambda>w. window_total td w > 1000) (map fst ?res)"
    by (rule concat_singletons)
  finally have m: "map attack_timestamp ?fs =
      filter (\<lambda>w. window_total td w > 1000) (map fst ?res)" .
  have conf: "\<forall>f\<in>set ?fs. attack_kind f = ''DDoS''
           \<and> confidence f = min (real_of_int (window_total td (attack_timestamp f)) / 1000) 1"
  proof
    fix f assume "f \<in> set ?fs"
    then obtain x where x: "x \<in> set ?res" and f: "f \<in> set (projr (ddos_window x))" by auto
    from each [OF x] obtain fs where
      a: "ddos_window x = Inr fs"
         "map attack_timestamp fs = (if window_total td (fst x) > 1000 then [fst x] else [])"
         "\<forall>f\<in>set fs. attack_kind f = ''DDoS''
                 \<and> confidence f = min (real_of_int (window_total td (fst x)) / 1000) 1"
      by blast
    from f a(1) have ffs: "f \<in> set fs" by simp
    then have "attack_timestamp f \<in> set (map attack_timestamp fs)" by simp
    then have "attack_timestamp f = fst x" by (simp add: a(2) split: if_splits)
    with a(3) ffs show "attack_kind f = ''DDoS''
           \<and> confidence f = min (real_of_int (window_total td (attack_timestamp f)) / 1000) 1"
      by simp
  qed
  have d: "distinct (map fst ?res)" by (rule distinct_fold_append) simp
  have k: "set (map fst ?res) = window_of ` set td" by (simp add: keys_fold_append)
  show ?thesis using det d k m conf
    by (intro exI [of _ ?fs] exI [of _ "map fst ?res"] conjI)
qed

text \<open>
  Claim C2. For every collection of well-formed traffic records, flood detection returns,
  and its findings are one per wall-clock minute whose records' packet counts sum to more
  than 1000: the findings carry pairwise different window starts, the window starts they
  carry are exactly the windows of the input whose total exceeds 1000, and the confidence
  of each finding is the minimum of its window's total over 1000 and 1.
\<close>

theorem detect_ddos_attack_windows:
  assumes "\<forall>t\<in>set td. well_formed t"
  shows "\<exists>fs. detect_ddos_attack td = Inr fs
     \<and> distinct (map attack_timestamp fs)
     \<and> set (map attack_timestamp fs) = {w \<in> window_of ` set td. window_total td w > 1000}
     \<and> (\<forall>f\<in>set fs. attack_kind f = ''DDoS''
           \<and> confidence f =
               min (real_of_int (window_total td (attack_timestamp f)) / 1000) 1)"
proof -
  from detect_ddos_attack_closed_form [OF assms] obtain fs keys where
    a: "detect_ddos_attack td = Inr fs" "distinct keys" "set keys = window_of ` set td"
       "map attack_timestamp fs = filter (\<lambda>w. window_total td w > 1000) keys"
       "\<forall>f\<in>set fs. attack_kind f = ''DDoS''
           \<and> confidence f =
               min (real_of_int (window_total td (attack_timestamp f)) / 1000) 1"
    by blast
  have "distinct (map attack_timestamp fs)" using a(2) by (simp add: a(4))
  moreover have "set (map attack_timestamp fs) =
      {w \<in> window_of ` set td. window_total td w > 1000}"
    using a(3) by (simp add: a(4))
  ultimately show ?thesis using a(1,5) by (intro exI [of _ fs] conjI)
qed

lemma ddos_window_confidence:
  "ddos_window x = Inr fs \<Longrightarrow> f \<in> set fs \<Longrightarrow> confidence f = 1"
  by (auto simp: ddos_window_def Let_def high_packet_rate_def
      split: prod.splits if_splits sum.splits)

lemma concat_results_elem:
  "concat_results f xs = Inr zs \<Longrightarrow> z \<in> set zs \<Longrightarrow>
     \<exists>x\<in>set xs. \<exists>ys. f x = Inr ys \<and> z \<in> set ys"
  by (induction xs arbitrary: zs) (auto split: sum.splits)

text \<open>
  Claim C9. Whatever the input, every finding flood detection returns has confidence
  exactly 1: a finding is only built when the window's total is above 1000, where the
  minimum of the total over 1000 and 1 is 1.
\<close>

theorem ddos_confidence_saturates:
  "detect_ddos_attack td = Inr fs \<Longrightarrow> \<forall>f\<in>set fs. confidence f = 1"
proof
  fix f
  assume det: "detect_ddos_attack td = Inr fs" and f: "f \<in> set fs"
  from det obtain ws where "concat_results ddos_window ws = Inr fs"
    by (auto simp: detect_ddos_attack_def split: sum.splits)
  from concat_results_elem [OF this f] obtain x ys where
    "ddos_window x = Inr ys" "f \<in> set ys" by blast
  then show "confidence f = 1" by (rule ddos_window_confidence)
qed

lemma flood_example_windows:
  "window_of ` set flood_example = {0, 60000000}"
  "window_total flood_example 0 = 1500"
  "window_total flood_example 60000000 = 500"
  by (simp_all add: flood_example_def record_at_def window_of_def window_total_def)

lemma flood_example_well_formed: "list_all well_formed flood_example"
  by (simp add: flood_example_def record_at_def well_formed_def)

text \<open>
  A window with 1500 packets and one with 500: one finding, for the first, of confidence 1.
\<close>

theorem detect_ddos_attack_windows_witness:
  "list_all well_formed flood_example
   \<and> (\<exists>fs. detect_ddos_attack flood_example = Inr fs
         \<and> map attack_timestamp fs = [0]
         \<and> confidence (hd fs) = 1)"
proof -
  have wf: "\<forall>t\<in>set flood_example. well_formed t"
    using flood_example_well_formed by (simp add: list_all_iff)
  from detect_ddos_attack_windows [OF wf] obtain fs where
    a: "detect_ddos_attack flood_example = Inr fs"
       "distinct (map attack_timestamp fs)"
       "set (map attack_timestamp fs) =
          {w \<in> window_of ` set flood_example. window_total flood_example w > 1000}"
       "\<forall>f\<in>set fs. attack_kind f = ''DDoS''
           \<and> confidence f =
               min (real_of_int (window_total flood_example (attack_timestamp f)) / 1000) 1"
    by blast
  have "{w \<in> window_of ` set flood_example. window_total flood_example w > 1000} = {0}"
    by (auto simp: flood_example_windows)
  with a(3) have s: "set (map attack_timestamp fs) = {0}" by simp
  have m: "map attack_timestamp fs = [0]"
  proof (cases "map attack_timestamp fs")
    case Nil
    with s show ?thesis by simp
  next
    case (Cons x xs)
    with s a(2) have "x = 0" "xs = []" by (auto simp: subset_singleton_iff)
    with Cons show ?thesis by simp
  qed
  then obtain f where fs: "fs = [f]" and f0: "attack_timestamp f = 0" by auto
  from a(4) fs f0 have "confidence f = 1" by (simp add: flood_example_windows)
  with a(1) m fs flood_example_well_formed show ?thesis by simp
qed

text \<open>The detector run on the example: its one finding, with its metrics.\<close>

theorem ddos_confidence_saturates_witness:
  "\<exists>f. detect_ddos_attack flood_example =
          Inr [f]
      \<and> attack_metrics f = DDoS_metrics 1500 2 (Some 500)
      \<and> confidence f = 1"
proof -
  have "\<exists>f. detect_ddos_attack flood_example = Inr [f]
      \<and> attack_metrics f = DDoS_metrics 1500 2 (Some 500)"
    by (simp add: detect_ddos_attack_def group_by_time_windows_def flood_example_def
        record_at_def window_start_def getitem_def floordiv_def replace_minute_def
        replace_second_microsecond_def minute_def ddos_window_def Let_def
        high_packet_rate_def np_mean_def)
  then obtain f where
    d: "detect_ddos_attack flood_example = Inr [f]"
       "attack_metrics f = DDoS_metrics 1500 2 (Some 500)" by blast
  from ddos_confidence_saturates [OF d(1)] have "confidence f = 1" by simp
  with d show ?thesis by blast
qed

section \<open>Properties of spoofing detection\<close>

lemma dict_get_map_of: "dict_get d k = map_of d k"
  by (induction d) auto

lemma map_of_dict_set: "map_of (dict_set k v d) = (map_of d)(k \<mapsto> v)"
  by (induction d) (auto simp: fun_eq_iff)

lemma keys_dict_set:
  "map fst (dict_set k v d) = (if k \<in> fst ` set d then map fst d else map fst d @ [k])"
  by (induction d) (auto simp: keys_iff)

lemma distinct_dict_set: "distinct (map fst d) \<Longrightarrow> distinct (map fst (dict_set k v d))"
  by (simp add: keys_dict_set)

lemma sightings_snoc:
  "sightings (pre @ [t]) s =
     (if source t = Some s then sightings pre s @ [t] else sightings pre s)"
  by (simp add: sightings_def)

lemma stats_of_other: "source t \<noteq> Some s \<Longrightarrow> stats_of (pre @ [t]) s = stats_of pre s"
  by (simp add: stats_of_def source_total_def source_volume_def first_sighting_def
      last_sighting_def sightings_snoc)

lemma stats_of_new:
  assumes "source t = Some s" "sightings pre s = []"
    "timestamp t = Some ts" "packet_count t = Some pc" "data_volume t = Some vol"
  shows "stats_of (pre @ [t]) s =
     \<lparr>stats_packet_count = 0 + pc, stats_data_volume = 0 + vol,
      first_seen = ts, last_seen = ts\<rparr>"
  using assms
  by (simp add: stats_of_def source_total_def source_volume_def first_sighting_def
      last_sighting_def sightings_snoc)

lemma stats_of_seen:
  assumes "source t = Some s" "sightings pre s \<noteq> []"
    "timestamp t = Some ts" "packet_count t = Some pc" "data_volume t = Some vol"
  shows "stats_of (pre @ [t]) s =
     \<lparr>stats_packet_count = stats_packet_count (stats_of pre s) + pc,
      stats_data_volume = stats_data_volume (stats_of pre s) + vol,
      first_seen = first_seen (stats_of pre s), last_seen = ts\<rparr>"
  using assms
  by (simp add: stats_of_def source_total_def source_volume_def first_sighting_def
      last_sighting_def sightings_snoc)

lemma spoofing_record_step:
  assumes wf: "well_formed t"
    and d: "distinct (map fst sa)"
    and m: "\<forall>s. map_of sa s = (if sightings pre s = [] then None else Some (stats_of pre s))"
  shows "\<exists>sa'. spoofing_record t sa = Inr sa' \<and> distinct (map fst sa')
     \<and> (\<forall>s. map_of sa' s =
            (if sightings (pre @ [t]) s = [] then None else Some (stats_of (pre @ [t]) s)))"
proof -
  from wf obtain src ts pc vol where
    t: "source t = Some src" "timestamp t = Some ts" "packet_count t = Some pc"
       "data_volume t = Some vol"
    by (auto simp: well_formed_def)
  let ?st = "stats_of (pre @ [t]) src"
  have rec: "spoofing_record t sa = Inr (dict_set src ?st sa)"
  proof (cases "sightings pre src = []")
    case True
    then have "map_of sa src = None" using m by simp
    then show ?thesis
      using t stats_of_new [OF t(1) True t(2,3,4)]
      by (simp add: spoofing_record_def getitem_def dict_get_map_of)
  next
    case False
    then have "map_of sa src = Some (stats_of pre src)" using m by simp
    then show ?thesis
      using t stats_of_seen [OF t(1) False t(2,3,4)]
      by (simp add: spoofing_record_def getitem_def dict_get_map_of)
  qed
  have "map_of (dict_set src ?st sa) s =
          (if sightings (pre @ [t]) s = [] then None else Some (stats_of (pre @ [t]) s))" for s
  proof (cases "s = src")
    case True
    then show ?thesis using t(1) by (simp add: map_of_dict_set sightings_snoc)
  next
    case False
    then have "source t \<noteq> Some s" using t(1) by simp
    then show ?thesis using False m
      by (simp add: map_of_dict_set sightings_snoc stats_of_other)
  qed
  then show ?thesis using rec d by (simp add: distinct_dict_set)
qed

lemma spoofing_loop_inv:
  assumes "\<forall>t\<in>set td. well_formed t"
    and "distinct (map fst sa)"
    and "\<forall>s. map_of sa s = (if sightings pre s = [] then None else Some (stats_of pre s))"
  shows "\<exists>sa'. spoofing_loop td sa = Inr sa' \<and> distinct (map fst sa')
     \<and> (\<forall>s. map_of sa' s =
            (if sightings (pre @ td) s = [] then None else Some (stats_of (pre @ td) s)))"
  using assms
proof (induction td arbitrary: sa pre)
  case Nil
  then show ?case by simp
next
  case (Cons t td)
  from Cons.prems(1) have wt: "well_formed t" and wtd: "\<forall>t\<in>set td. well_formed t" by simp_all
  from spoofing_record_step [OF wt Cons.prems(2,3)] obtain sa1 where
    a: "spoofing_record t sa = Inr sa1" "distinct (map fst sa1)"
       "\<forall>s. map_of sa1 s =
            (if sightings (pre @ [t]) s = [] then None else Some (stats_of (pre @ [t]) s))"
    by blast
  have e: "(pre @ [t]) @ td = pre @ t # td" by simp
  from Cons.IH [OF wtd a(2,3)] obtain sa' where
    b: "spoofing_loop td sa1 = Inr sa'" "distinct (map fst sa')"
       "\<forall>s. map_of sa' s =
            (if sightings (pre @ t # td) s = [] then None
             else Some (stats_of (pre @ t # td) s))"
    unfolding e by blast
  have "spoofing_loop (t # td) sa = Inr sa'" using a(1) b(1) by simp
  then show ?case using b(2,3) by (intro exI [of _ sa'] conjI)
qed


lemma spoofing_source_total:
  "\<exists>fs. spoofing_source (src, st) = Inr fs
     \<and> map finding_source fs =
         (if total_seconds (last_seen st - first_seen st) > 0
             \<and> real_of_int (stats_packet_count st)
                  / total_seconds (last_seen st - first_seen st) > 50
          then [src] else [])
     \<and> (\<forall>f\<in>set fs. attack_kind f = ''Spoofing''
           \<and> confidence f =
               min (real_of_int (stats_packet_count st)
                      / total_seconds (last_seen st - first_seen st) / 100) 1)"
  by (simp add: spoofing_source_def Let_def truediv_def finding_source_def)

lemma stats_of_fields:
  "stats_packet_count (stats_of td s) = source_total td s"
  "total_seconds (last_seen (stats_of td s) - first_seen (stats_of td s)) = sighting_span td s"
  by (simp_all add: stats_of_def sighting_span_def)

lemma detect_spoofing_attack_closed_form:
  assumes wf: "\<forall>t\<in>set td. well_formed t"
  shows "\<exists>fs keys. detect_spoofing_attack td = Inr fs
     \<and> distinct keys \<and> set keys = {s. sightings td s \<noteq> []}
     \<and> map finding_source fs =
         filter (\<lambda>s. sighting_span td s > 0
                   \<and> real_of_int (source_total td s) / sighting_span td s > 50) keys
     \<and> (\<forall>f\<in>set fs. attack_kind f = ''Spoofing''
           \<and> confidence f =
               min (real_of_int (source_total td (finding_source f))
                      / sighting_span td (finding_source f) / 100) 1)"
proof -
  let ?P = "\<lambda>s. sighting_span td s > 0
                   \<and> real_of_int (source_total td s) / sighting_span td s > 50"
  have "distinct (map fst ([] :: (string \<times> source_stats) list))" by simp
  moreover have "\<forall>s. map_of ([] :: (string \<times> source_stats) list) s =
      (if sightings [] s = [] then None else Some (stats_of [] s))"
    by (simp add: sightings_def)
  ultimately obtain sa where
    loop: "spoofing_loop td [] = Inr sa" and d: "distinct (map fst sa)" and
    m: "\<forall>s. map_of sa s = (if sightings td s = [] then None else Some (stats_of td s))"
    using spoofing_loop_inv [OF wf, of "[]" "[]"] by auto
  let ?fs = "concat (map (\<lambda>x. projr (spoofing_source x)) sa)"
  have each: "\<exists>fs. spoofing_source x = Inr fs
       \<and> map finding_source fs = (if ?P (fst x) then [fst x] else [])
       \<and> (\<forall>f\<in>set fs. attack_kind f = ''Spoofing''
             \<and> confidence f =
                 min (real_of_int (source_total td (fst x)) / sighting_span td (fst x) / 100) 1)"
    if x: "x \<in> set sa" for x
  proof -
    obtain s st where xs: "x = (s, st)" by (cases x)
    from d x have "map_of sa s = Some st" unfolding xs by (rule map_of_is_SomeI)
    with m have st: "st = stats_of td s" by (auto split: if_splits)
    show ?thesis
      using spoofing_source_total [of s st] unfolding xs fst_conv st stats_of_fields .
  qed
  then have "\<forall>x\<in>set sa. \<exists>ys. spoofing_source x = Inr ys" by blast
  then have "concat_results spoofing_source sa = Inr ?fs" by (rule concat_results_all)
  then have det: "detect_spoofing_attack td = Inr ?fs"
    by (simp add: detect_spoofing_attack_def loop)
  have srcs: "map finding_source (projr (spoofing_source x)) =
      (if ?P (fst x) then [fst x] else [])" if "x \<in> set sa" for x
    using each [OF that] by auto
  have "map finding_source ?fs =
      concat (map (\<lambda>x. map finding_source (projr (spoofing_source x))) sa)"
    by (simp add: map_concat comp_def)
  also have "\<dots> = concat (map (\<lambda>x. if ?P (fst x) then [fst x] else []) sa)"
    using srcs by (intro arg_cong [of _ _ concat] map_cong) simp_all
  also have "\<dots> = concat (map (\<lambda>s. if ?P s then [s] else []) (map fst sa))"
    by (simp add: comp_def)
  also have "\<dots> = filter ?P (map fst sa)" by (rule concat_singletons)
  finally have mp: "map finding_source ?fs = filter ?P (map fst sa)" .
  have conf: "\<forall>f\<in>set ?fs. attack_kind f = ''Spoofing''
           \<and> confidence f =
               min (real_of_int (source_total td (finding_source f))
                      / sighting_span td (finding_source f) / 100) 1"
  proof
    fix f assume "f \<in> set ?fs"
    then obtain x where x: "x \<in> set sa" and f: "f \<in> set (projr (spoofing_source x))" by auto
    from each [OF x] obtain fs where
      a: "spoofing_source x = Inr fs"
         "map finding_source fs = (if ?P (fst x) then [fst x] else [])"
         "\<forall>f\<in>set fs. attack_kind f = ''Spoofing''
             \<and> confidence f =
                 min (real_of_int (source_total td (fst x)) / sighting_span td (fst x) / 100) 1"
      by blast
    from f a(1) have ffs: "f \<in> set fs" by simp
    then have "finding_source f \<in> set (map finding_source fs)" by simp
    then have "finding_source f = fst x" by (simp add: a(2) split: if_splits)
    with a(3) ffs show "attack_kind f = ''Spoofing''
           \<and> confidence f =
               min (real_of_int (source_total td (finding_source f))
                      / sighting_span td (finding_source f) / 100) 1"
      by simp
  qed
  have k: "set (map fst sa) = {s. sightings td s \<noteq> []}"
  proof -
    have "s \<in> fst ` set sa \<longleftrightarrow> sightings td s \<noteq> []" for s
      using m by (simp add: keys_iff)
    then show ?thesis by auto
  qed
  show ?thesis using det d k mp conf
    by (intro exI [of _ ?fs] exI [of _ "map fst sa"] conjI)
qed







lemma spoofing_record_Inl: "spoofing_record t sa = Inl e \<Longrightarrow> \<exists>k. e = KeyError k"
  by (auto simp: spoofing_record_def getitem_def split: option.splits sum.splits)

lemma spoofing_record_Inr: "spoofing_record t sa = Inr sa' \<Longrightarrow> well_formed t"
  by (auto simp: spoofing_record_def getitem_def well_formed_def
      split: option.splits sum.splits)

lemma spoofing_loop_Inl: "spoofing_loop td sa = Inl e \<Longrightarrow> \<exists>k. e = KeyError k"
  by (induction td arbitrary: sa) (auto split: sum.splits dest: spoofing_record_Inl)

lemma spoofing_loop_Inr: "spoofing_loop td sa = Inr sa' \<Longrightarrow> \<forall>t\<in>set td. well_formed t"
  by (induction td arbitrary: sa) (auto split: sum.splits dest: spoofing_record_Inr)

lemma detect_spoofing_attack_Inl:
  "detect_spoofing_attack td = Inl e \<Longrightarrow> \<exists>k. e = KeyError k"
proof -
  assume a: "detect_spoofing_attack td = Inl e"
  show ?thesis
  proof (cases "spoofing_loop td []")
    case (Inl e')
    with a have "e' = e" by (simp add: detect_spoofing_attack_def)
    with Inl show ?thesis by (auto dest: spoofing_loop_Inl)
  next
    case (Inr sa)
    have "\<forall>x\<in>set sa. \<exists>ys. spoofing_source x = Inr ys"
      using spoofing_source_total by (metis surj_pair)
    then have "concat_results spoofing_source sa =
        Inr (concat (map (\<lambda>x. projr (spoofing_source x)) sa))"
      by (rule concat_results_all)
    with a Inr show ?thesis by (simp add: detect_spoofing_attack_def)
  qed
qed

text \<open>
  Claim C10. Whatever the input, spoofing detection does not fail with a division by zero
  (the only exception it can raise is a KeyError), and when it returns, every finding names
  a source whose first and last sightings carry different timestamps, whose span is
  strictly positive, and which therefore appears in at least two records: a source seen in
  one record only is never flagged, whatever its packet count.
\<close>

theorem spoofing_never_divides_by_zero:
  "detect_spoofing_attack td \<noteq> Inl ZeroDivisionError
   \<and> (\<forall>fs. detect_spoofing_attack td = Inr fs \<longrightarrow>
         (\<forall>f\<in>set fs. first_sighting td (finding_source f) \<noteq> last_sighting td (finding_source f)
            \<and> 0 < sighting_span td (finding_source f)
            \<and> 2 \<le> length (sightings td (finding_source f))))"
proof (intro conjI allI impI ballI)
  show "detect_spoofing_attack td \<noteq> Inl ZeroDivisionError"
    using detect_spoofing_attack_Inl [of td ZeroDivisionError] by auto
next
  fix fs f
  assume det: "detect_spoofing_attack td = Inr fs" and f: "f \<in> set fs"
  let ?s = "finding_source f"
  from det obtain sa where "spoofing_loop td [] = Inr sa"
    by (auto simp: detect_spoofing_attack_def split: sum.splits)
  then have wf: "\<forall>t\<in>set td. well_formed t" by (rule spoofing_loop_Inr)
  from detect_spoofing_attack_closed_form [OF wf] det obtain keys where
    k: "set keys = {s. sightings td s \<noteq> []}"
       "map finding_source fs =
         filter (\<lambda>s. sighting_span td s > 0
                   \<and> real_of_int (source_total td s) / sighting_span td s > 50) keys"
    by auto
  from f have "?s \<in> set (map finding_source fs)" by simp
  then have ne: "sightings td ?s \<noteq> []" and span: "0 < sighting_span td ?s"
    using k(1) by (auto simp: k(2))
  from span show d: "first_sighting td ?s \<noteq> last_sighting td ?s"
    by (auto simp: sighting_span_def total_seconds_def)
  from span show "0 < sighting_span td ?s" .
  show "2 \<le> length (sightings td ?s)"
  proof (cases "sightings td ?s")
    case Nil
    with ne show ?thesis by simp
  next
    case (Cons x xs)
    with d have "xs \<noteq> []" by (auto simp: first_sighting_def last_sighting_def)
    with Cons show ?thesis by (cases xs) simp_all
  qed
qed

text \<open>
  A source seen once with a million packets is not flagged; the source seen twice is.
\<close>

theorem spoofing_never_divides_by_zero_witness:
  "\<exists>f. detect_spoofing_attack burst_example = Inr [f]
      \<and> finding_source f = ''ATTACKER-1000''
      \<and> length (sightings burst_example ''ATTACKER-2000'') = 1
      \<and> source_total burst_example ''ATTACKER-2000'' = 1000000
      \<and> first_sighting burst_example ''ATTACKER-1000''
          \<noteq> last_sighting burst_example ''ATTACKER-1000''"
proof -
  have "\<exists>f. detect_spoofing_attack burst_example = Inr [f]
      \<and> finding_source f = ''ATTACKER-1000''"
    by (simp add: detect_spoofing_attack_def burst_example_def record_at_def
        spoofing_record_def getitem_def spoofing_source_def total_seconds_def truediv_def
        finding_source_def Let_def)
  then obtain f where d: "detect_spoofing_attack burst_example = Inr [f]"
    "finding_source f = ''ATTACKER-1000''" by blast
  from spoofing_never_divides_by_zero [of burst_example] d
  have "first_sighting burst_example ''ATTACKER-1000''
          \<noteq> last_sighting burst_example ''ATTACKER-1000''"
    by auto
  moreover have "length (sightings burst_example ''ATTACKER-2000'') = 1"
    "source_total burst_example ''ATTACKER-2000'' = 1000000"
    by (simp_all add: burst_example_def record_at_def sightings_def source_total_def)
  ultimately show ?thesis using d by blast
qed

section \<open>Detection on empty and short inputs\<close>

lemma detect_mitm_attack_few:
  "length (filter qualifies td) < 10 \<Longrightarrow> detect_mitm_attack d td = Inr []"
  by (simp add: detect_mitm_attack_def Let_def)

lemma detect_jamming_attack_no_signal:
  "\<forall>t\<in>set td. signal_strength t = None \<Longrightarrow> detect_jamming_attack td = Inr []"
proof -
  assume "\<forall>t\<in>set td. signal_strength t = None"
  then have "filter (\<lambda>t. signal_strength t \<noteq> None) td = []"
    by (simp add: filter_empty_conv)
  then show ?thesis by (simp add: detect_jamming_attack_def)
qed

text \<open>
  Claim C4. On the empty collection, comprehensive detection returns (it does not raise)
  four empty finding lists and a summary counting 0 attacks and 0 records analysed, and
  each of the four detection methods returns the empty list. Interception detection
  returns the empty list on any input with fewer than 10 qualifying records, and jamming
  detection on any input none of whose records carries a signal strength.
\<close>

theorem detection_degrades_to_empty:
  "comprehensive_attack_detection d now [] =
     Inr \<lparr>ddos_attacks = [], jamming_attacks = [], mitm_attacks = [], spoofing_attacks = [],
          detection_summary =
            \<lparr>total_attacks = 0, detection_timestamp = now, traffic_records_analyzed = 0\<rparr>\<rparr>
   \<and> detect_ddos_attack [] = Inr []
   \<and> detect_jamming_attack [] = Inr []
   \<and> detect_mitm_attack d [] = Inr []
   \<and> detect_spoofing_attack [] = Inr []
   \<and> (length (filter qualifies td) < 10 \<longrightarrow> detect_mitm_attack d td = Inr [])
   \<and> ((\<forall>t\<in>set td. signal_strength t = None) \<longrightarrow> detect_jamming_attack td = Inr [])"
proof -
  have ddos: "detect_ddos_attack [] = Inr []"
    by (simp add: detect_ddos_attack_def group_by_time_windows_def)
  have jam: "detect_jamming_attack [] = Inr []"
    by (simp add: detect_jamming_attack_def)
  have mitm: "detect_mitm_attack d [] = Inr []"
    by (rule detect_mitm_attack_few) simp
  have spoof: "detect_spoofing_attack [] = Inr []"
    by (simp add: detect_spoofing_attack_def)
  have "comprehensive_attack_detection d now [] =
     Inr \<lparr>ddos_attacks = [], jamming_attacks = [], mitm_attacks = [], spoofing_attacks = [],
          detection_summary =
            \<lparr>total_attacks = 0, detection_timestamp = now, traffic_records_analyzed = 0\<rparr>\<rparr>"
    by (simp add: comprehensive_attack_detection_def ddos jam mitm spoof)
  then show ?thesis
    using ddos jam mitm spoof detect_mitm_attack_few [of td d]
      detect_jamming_attack_no_signal [of td]
    by blast
qed

text \<open>Two records without signal strength: below both minimums.\<close>

theorem detection_degrades_to_empty_witness:
  "length (filter qualifies [bare_record, bare_record]) = 2
   \<and> list_all (\<lambda>t. signal_strength t = None) [bare_record, bare_record]
   \<and> detect_mitm_attack null_detector [bare_record, bare_record] = Inr []
   \<and> detect_jamming_attack [bare_record, bare_record] = Inr []
   \<and> comprehensive_attack_detection null_detector ''2024-01-01T00:00:00'' [] =
       Inr \<lparr>ddos_attacks = [], jamming_attacks = [], mitm_attacks = [], spoofing_attacks = [],
            detection_summary =
              \<lparr>total_attacks = 0, detection_timestamp = ''2024-01-01T00:00:00'',
               traffic_records_analyzed = 0\<rparr>\<rparr>"
proof -
  have q: "length (filter qualifies [bare_record, bare_record]) = 2"
    by (simp add: qualifies_def bare_record_def)
  have n: "\<forall>t\<in>set [bare_record, bare_record]. signal_strength t = None"
    by (simp add: bare_record_def)
  from detection_degrades_to_empty
    [of null_detector "''2024-01-01T00:00:00''" "[bare_record, bare_record]"] q n
  show ?thesis by (simp add: bare_record_def)
qed

end
